theory Spec2Isabelle
  imports Complex_Main "HOL-Library.Monad_Syntax" "HOL-Library.Word"
begin

section \<open>Array primitives used by the strategies\<close>

text \<open>
  The strategies of \<^verbatim>\<open>game/strategy.py\<close> work on numpy arrays. A one-dimensional
  array is a list, a two-dimensional array a list of rows. A call that raises in the
  source (\<^verbatim>\<open>np.argmax\<close>, \<^verbatim>\<open>np.max\<close>, \<^verbatim>\<open>np.min\<close> of an empty
  array, \<^verbatim>\<open>np.random.randint\<close> of an empty range) returns \<open>None\<close>.
\<close>

primrec argmax_scan :: "'a::linorder \<Rightarrow> nat \<Rightarrow> nat \<Rightarrow> 'a list \<Rightarrow> nat" where
  "argmax_scan best bi i [] = bi"
| "argmax_scan best bi i (x # xs) =
     (if best < x then argmax_scan x i (Suc i) xs else argmax_scan best bi (Suc i) xs)"

text \<open>\<^verbatim>\<open>np.argmax\<close>: the index of the first occurrence of the maximum.\<close>

fun np_argmax :: "'a::linorder list \<Rightarrow> nat option" where
  "np_argmax [] = None"
| "np_argmax (x # xs) = Some (argmax_scan x 0 1 xs)"

fun np_max :: "'a::linorder list \<Rightarrow> 'a option" where
  "np_max [] = None"
| "np_max (x # xs) = Some (fold max xs x)"

fun np_min :: "'a::linorder list \<Rightarrow> 'a option" where
  "np_min [] = None"
| "np_min (x # xs) = Some (fold min xs x)"

text \<open>\<^verbatim>\<open>np.where(a == v)[0]\<close>: the indices holding \<open>v\<close>, ascending.\<close>

definition np_where_eq :: "'a list \<Rightarrow> 'a \<Rightarrow> nat list" where
  "np_where_eq xs v = filter (\<lambda>i. xs ! i = v) [0..<length xs]"

text \<open>
  \<^verbatim>\<open>np.max(a, axis)\<close> called on a scalar \<open>a\<close>: the second positional argument is
  the axis, not a second operand. For a zero-dimensional input numpy accepts the axes
  \<open>0\<close> and \<open>-1\<close> and reduces over no axis at all, so the call returns \<open>a\<close>; any
  other axis is an AxisError.
\<close>

definition np_max_scalar :: "int \<Rightarrow> int \<Rightarrow> int option" where
  "np_max_scalar a axis = (if axis = 0 \<or> axis = - 1 then Some a else None)"

text \<open>
  \<^verbatim>\<open>np.random.randint(low, high)\<close> draws from the half-open range
  \<open>[low, high)\<close> and raises on an empty range. The generator is made explicit: \<open>u\<close>
  is the raw draw, and every value of the range is the outcome of equally many raw draws.
\<close>

definition randint :: "int \<Rightarrow> int \<Rightarrow> nat \<Rightarrow> int option" where
  "randint low high u =
     (if high \<le> low then None else Some (low + int (u mod nat (high - low))))"

section \<open>The rules engine the strategies call\<close>

text \<open>
  Board, deck and score ledger (\<^verbatim>\<open>game.board\<close>, \<^verbatim>\<open>game.player\<close>,
  \<^verbatim>\<open>game.utils\<close>) are collaborators whose code is not part of the sources at hand.
  Their operations are the fields of a record, and every result below holds for any
  such record. \<open>'b\<close>, \<open>'d\<close> and \<open>'s\<close> are the values of a board, a deck and a score
  ledger. A move is a row of 8 small numbers, a score a row of 6 integers. The mutators
  (\<open>update_score\<close>, \<open>update_board\<close>, \<open>play_tile\<close>) return the new value of the one
  object they are called on.
\<close>

text \<open>
  Modelled from the spec: the element type of the score arrays is declared with the
  score ledger, in code that is not at hand. The specification's data model makes a score
  a vector of six non-negative integers, each capped at 18; scores are integers here, and
  sums and differences of scores do not wrap.
\<close>

type_synonym move = "nat list"

record ('b, 'd, 's) engine =
  get_all_possible_moves :: "'b \<Rightarrow> nat list list"
  combine_moves_and_deck :: "nat list list \<Rightarrow> nat list list \<Rightarrow> move list"
  get_deck :: "'d \<Rightarrow> nat list list"
  batch_calculate_move_scores :: "'b \<Rightarrow> move list \<Rightarrow> int list list"
  batch_peek_next_scores :: "'s \<Rightarrow> int list list \<Rightarrow> int list list \<times> nat list \<times> nat list"
  get_score :: "'s \<Rightarrow> int list"
  calculate_move_score :: "'b \<Rightarrow> move \<Rightarrow> int list"
  update_score :: "'s \<Rightarrow> int list \<Rightarrow> 's \<times> bool \<times> nat"
  update_board :: "'b \<Rightarrow> move \<Rightarrow> 'b"
  play_tile :: "'d \<Rightarrow> nat list \<Rightarrow> 'd"
  game_is_finished :: "'b \<Rightarrow> bool"
  create_dummy_deck :: "'d \<Rightarrow> 'd"
  find_winner_fast :: "int list \<Rightarrow> int list \<Rightarrow> nat"
  get_other_player :: "nat \<Rightarrow> nat"
  move_num :: "'b \<Rightarrow> nat"
  board_get_state_copy :: "'b \<Rightarrow> nat list list list"
  deck_get_state_copy :: "'d \<Rightarrow> nat list list"
  batch_get_updated_states :: "'b \<Rightarrow> move list \<Rightarrow> nat list list list list"
  batch_peek_next_states :: "'d \<Rightarrow> nat list list \<Rightarrow> nat list list list"
  batch_peek_next_decks :: "'d \<Rightarrow> nat list list \<Rightarrow> nat list list list"
  batch_peek_can_exchange_tiles :: "nat list list list \<Rightarrow> int list list \<Rightarrow> nat list"

section \<open>Heuristic strategies\<close>

text \<open>The first two lines of every heuristic: the candidate-move batch.\<close>

definition possible_moves_of :: "('b, 'd, 's) engine \<Rightarrow> 'b \<Rightarrow> 'd \<Rightarrow> move list" where
  "possible_moves_of e board deck =
     combine_moves_and_deck e (get_all_possible_moves e board) (get_deck e deck)"

text \<open>The would-be score vector after each candidate.\<close>

definition updated_scores_of :: "('b, 'd, 's) engine \<Rightarrow> 'b \<Rightarrow> 'd \<Rightarrow> 's \<Rightarrow> int list list" where
  "updated_scores_of e board deck score =
     fst (batch_peek_next_scores e score
            (batch_calculate_move_scores e board (possible_moves_of e board deck)))"

text \<open>\<^verbatim>\<open>np.sum(rows - np.expand_dims(original, 0), axis=1)\<close>\<close>

definition total_scores_diff :: "int list list \<Rightarrow> int list \<Rightarrow> int list" where
  "total_scores_diff rows original = map (\<lambda>row. sum_list (map2 (-) row original)) rows"

definition choose_random_move :: "('b, 'd, 's) engine \<Rightarrow> 'b \<Rightarrow> 'd \<Rightarrow> nat \<Rightarrow> move option" where
  "choose_random_move e board deck u =
     (let possible_moves = possible_moves_of e board deck in
      do {
        random_idx \<leftarrow> randint 0 (int (length possible_moves) - 1) u;
        Some (possible_moves ! nat random_idx)
      })"

definition choose_max_scoring_move :: "('b, 'd, 's) engine \<Rightarrow> 'b \<Rightarrow> 'd \<Rightarrow> 's \<Rightarrow> move option" where
  "choose_max_scoring_move e board deck score =
     (let possible_moves = possible_moves_of e board deck;
          original_score = get_score e score;
          updated_scores = updated_scores_of e board deck score;
          total = total_scores_diff updated_scores original_score
      in do {
        max_index \<leftarrow> np_argmax total;
        Some (possible_moves ! max_index)
      })"

definition choose_increase_min_move :: "('b, 'd, 's) engine \<Rightarrow> 'b \<Rightarrow> 'd \<Rightarrow> 's \<Rightarrow> move option" where
  "choose_increase_min_move e board deck score =
     (let possible_moves = possible_moves_of e board deck;
          original_score = get_score e score
      in do {
        min_score \<leftarrow> np_min original_score;
        let min_idxs = np_where_eq original_score min_score;
        let updated_move_scores = updated_scores_of e board deck score;
        let min_scores = map (\<lambda>row. map (\<lambda>i. row ! i) min_idxs) updated_move_scores;
        let total_min_scores = map sum_list min_scores;
        max_total_min_score \<leftarrow> np_max total_min_scores;
        if max_total_min_score > 0 then
          (let max_total_min_scores_idxs = np_where_eq total_min_scores max_total_min_score in
           if length max_total_min_scores_idxs = 1 then
             Some (possible_moves ! (max_total_min_scores_idxs ! 0))
           else
             (let best_moves_so_far = map (\<lambda>i. possible_moves ! i) max_total_min_scores_idxs;
                  best_moves_updated_scores = map (\<lambda>i. updated_move_scores ! i) max_total_min_scores_idxs;
                  total = total_scores_diff best_moves_updated_scores original_score
              in do {
                max_index \<leftarrow> np_argmax total;
                Some (best_moves_so_far ! max_index)
              }))
        else choose_max_scoring_move e board deck score
      })"

text \<open>
  The deficit matrix of \<^verbatim>\<open>choose_reduce_deficit_move\<close>: the sum, the two loops
  that raise every entry below 36 to 36, and the final \<^verbatim>\<open>diffs -= 36\<close>.
\<close>

definition reduce_deficit_diffs :: "int list \<Rightarrow> int list list \<Rightarrow> int \<Rightarrow> int list list" where
  "reduce_deficit_diffs other_score updated_move_scores margin =
     (let diffs = map (\<lambda>row. map (\<lambda>x. x + 36 + margin) (map2 (-) other_score row)) updated_move_scores;
          diffs = map (map (\<lambda>x. if x < 36 then 36 else x)) diffs
      in map (map (\<lambda>x. x - 36)) diffs)"

definition choose_reduce_deficit_move ::
  "('b, 'd, 's) engine \<Rightarrow> 'b \<Rightarrow> 'd \<Rightarrow> 's \<Rightarrow> 's \<Rightarrow> int \<Rightarrow> move option" where
  "choose_reduce_deficit_move e board deck score other_score margin =
     (let possible_moves = possible_moves_of e board deck;
          updated_move_scores = updated_scores_of e board deck score;
          diffs = reduce_deficit_diffs (get_score e other_score) updated_move_scores margin;
          total_diffs = map sum_list diffs
      in do {
        min_diff \<leftarrow> np_min total_diffs;
        let min_diff_idxs = np_where_eq total_diffs min_diff;
        if length min_diff_idxs = 1 then Some (possible_moves ! (min_diff_idxs ! 0))
        else
          (let total = total_scores_diff updated_move_scores (get_score e score);
               min_diff_subset = map (\<lambda>i. total ! i) min_diff_idxs
           in do {
             max_min_diff_idx \<leftarrow> np_argmax min_diff_subset;
             Some (map (\<lambda>i. possible_moves ! i) min_diff_idxs ! max_min_diff_idx)
           })
      })"

definition choose_should_exchange :: "bool \<Rightarrow> nat \<Rightarrow> bool option" where
  "choose_should_exchange inference u =
     (if inference then Some True
      else do { r \<leftarrow> randint 0 1 u; Some (r = 1) })"

text \<open>
  The schedule-based strategies keep their margin in the instance. \<open>choose_move\<close>
  takes the instance and returns it updated; the confidence of a heuristic is the
  constant 0.5.
\<close>

record MixedStrategy3 =
  margin :: int

record MixedStrategy4 = MixedStrategy3 +
  count :: int

definition MixedStrategy3_init :: MixedStrategy3 where
  "MixedStrategy3_init = \<lparr>margin = 15\<rparr>"

definition MixedStrategy4_init :: MixedStrategy4 where
  "MixedStrategy4_init = \<lparr>margin = 5, count = 4\<rparr>"

definition MixedStrategy3_choose_move ::
  "('b, 'd, 's) engine \<Rightarrow> 'b \<Rightarrow> 'd \<Rightarrow> 's \<Rightarrow> 's \<Rightarrow> bool \<Rightarrow> nat \<Rightarrow> MixedStrategy3
     \<Rightarrow> (((move \<times> bool) \<times> real) \<times> MixedStrategy3) option" where
  "MixedStrategy3_choose_move e board deck score other_score inference u self =
     do {
       move \<leftarrow> choose_reduce_deficit_move e board deck score other_score (margin self);
       m \<leftarrow> np_max_scalar (margin self - 1) 0;
       let self = self\<lparr>margin := m\<rparr>;
       should_exchange \<leftarrow> choose_should_exchange inference u;
       Some (((move, should_exchange), 1 / 2), self)
     }"

definition MixedStrategy4_choose_move ::
  "('b, 'd, 's) engine \<Rightarrow> 'b \<Rightarrow> 'd \<Rightarrow> 's \<Rightarrow> 's \<Rightarrow> bool \<Rightarrow> nat \<Rightarrow> MixedStrategy4
     \<Rightarrow> (((move \<times> bool) \<times> real) \<times> MixedStrategy4) option" where
  "MixedStrategy4_choose_move e board deck score other_score inference u self =
     do {
       move \<leftarrow> choose_reduce_deficit_move e board deck score other_score (margin self);
       self \<leftarrow> (if count self = 0 then
                  do { m \<leftarrow> np_max_scalar (margin self - 1) 0;
                       Some (self\<lparr>margin := m, count := 4\<rparr>) }
                else Some (self\<lparr>count := count self - 1\<rparr>));
       should_exchange \<leftarrow> choose_should_exchange inference u;
       Some (((move, should_exchange), 1 / 2), self)
     }"

text \<open>
  A sequence of calls on one instance; each element holds the arguments of one call
  (board, deck, score, other score, inference flag, raw random draw).
\<close>

type_synonym ('b, 'd, 's) call = "'b \<times> 'd \<times> 's \<times> 's \<times> bool \<times> nat"

fun MixedStrategy3_calls ::
  "('b, 'd, 's) engine \<Rightarrow> ('b, 'd, 's) call list \<Rightarrow> MixedStrategy3 \<Rightarrow> MixedStrategy3 option" where
  "MixedStrategy3_calls e [] self = Some self"
| "MixedStrategy3_calls e ((board, deck, score, other_score, inference, u) # cs) self =
     do {
       (_, self') \<leftarrow> MixedStrategy3_choose_move e board deck score other_score inference u self;
       MixedStrategy3_calls e cs self'
     }"

fun MixedStrategy4_calls ::
  "('b, 'd, 's) engine \<Rightarrow> ('b, 'd, 's) call list \<Rightarrow> MixedStrategy4 \<Rightarrow> MixedStrategy4 option" where
  "MixedStrategy4_calls e [] self = Some self"
| "MixedStrategy4_calls e ((board, deck, score, other_score, inference, u) # cs) self =
     do {
       (_, self') \<leftarrow> MixedStrategy4_choose_move e board deck score other_score inference u self;
       MixedStrategy4_calls e cs self'
     }"

section \<open>Representations\<close>

text \<open>
  \<^verbatim>\<open>RepresentationsBuffer\<close> of \<^verbatim>\<open>learn/representation.py\<close>: \<open>size\<close> is an
  int32, \<open>version\<close> and \<open>empty\<close> are uint8, the arrays hold uint8 entries. The fields
  \<open>size\<close> and \<open>empty\<close> are named \<open>size_b\<close> and \<open>empty_b\<close> here.
\<close>

record RepresentationsBuffer =
  version :: "8 word"
  size_b :: "32 word"
  empty_b :: "8 word"
  board_repr :: "8 word list list list list"
  deck_repr :: "8 word list list list"
  scores_repr :: "8 word list list list"
  general_repr :: "8 word list list"
  values_repr :: "8 word list list"
  turn_of_repr :: "8 word list"

definition get_new_reprs_buffer :: RepresentationsBuffer where
  "get_new_reprs_buffer = \<lparr>version = 1, size_b = 0, empty_b = 1, board_repr = [], deck_repr = [],
     scores_repr = [], general_repr = [], values_repr = [], turn_of_repr = []\<rparr>"

definition set_single_reprs_from_scratch ::
  "RepresentationsBuffer \<Rightarrow> 8 word list list list \<Rightarrow> 8 word list list \<Rightarrow> 8 word list list
     \<Rightarrow> 8 word list \<Rightarrow> 8 word list \<Rightarrow> 8 word list \<Rightarrow> RepresentationsBuffer" where
  "set_single_reprs_from_scratch self board_r deck_r scores_r general_r turn_of_r values_r =
     self\<lparr>board_repr := [board_r], deck_repr := [deck_r], scores_repr := [scores_r],
          general_repr := [general_r], values_repr := [values_r], turn_of_repr := turn_of_r,
          size_b := size_b self + 1, empty_b := 0\<rparr>"

definition set_batched_reprs_from_scratch ::
  "RepresentationsBuffer \<Rightarrow> 8 word list list list list \<Rightarrow> 8 word list list list
     \<Rightarrow> 8 word list list list \<Rightarrow> 8 word list list \<Rightarrow> 8 word list \<Rightarrow> 8 word list list
     \<Rightarrow> RepresentationsBuffer" where
  "set_batched_reprs_from_scratch self board_r deck_r scores_r general_r turn_of_r values_r =
     self\<lparr>board_repr := board_r, deck_repr := deck_r, scores_repr := scores_r,
          general_repr := general_r, values_repr := values_r, turn_of_repr := turn_of_r,
          size_b := size_b self + of_nat (length board_r), empty_b := 0\<rparr>"

text \<open>\<^verbatim>\<open>RepresentationGenerator.generate\<close>: the encoding of one state.\<close>

definition generate ::
  "('b, 'd, 's) engine \<Rightarrow> 'b \<Rightarrow> 'd \<Rightarrow> 's \<Rightarrow> 's \<Rightarrow> nat \<Rightarrow> nat \<Rightarrow> nat \<Rightarrow> nat \<Rightarrow> 8 word list
     \<Rightarrow> RepresentationsBuffer" where
  "generate e board deck score other_score ingenious num_ingenious can_exchange should_exchange turn_of =
     (let board_r = map (map (map of_nat)) (board_get_state_copy e board);
          deck_r = map (map of_nat) (deck_get_state_copy e deck);
          scores_r = [map of_int (get_score e score), map of_int (get_score e other_score)];
          general_r = map of_nat [ingenious, num_ingenious, can_exchange,
                                  should_exchange * can_exchange, move_num e board];
          values_r = [0, 0];
          new_reprs_buffer = get_new_reprs_buffer
      in set_single_reprs_from_scratch new_reprs_buffer board_r deck_r scores_r general_r turn_of values_r)"

text \<open>
  \<^verbatim>\<open>np.where(((can == 0) & (should == 0)) | (can == 1))[0]\<close>
\<close>

definition np_where_valid :: "nat list \<Rightarrow> nat list \<Rightarrow> nat list" where
  "np_where_valid can_exchange_stacked should_exchange_stacked =
     filter (\<lambda>i. (can_exchange_stacked ! i = 0 \<and> should_exchange_stacked ! i = 0)
                  \<or> can_exchange_stacked ! i = 1)
       [0..<length can_exchange_stacked]"

text \<open>
  \<^verbatim>\<open>RepresentationGenerator.generate_batched\<close>: every candidate is encoded twice, with
  the should-exchange flag cleared and set, and the rows with the flag set are kept only
  where an exchange is possible.
\<close>

definition generate_batched ::
  "('b, 'd, 's) engine \<Rightarrow> 'b \<Rightarrow> 'd \<Rightarrow> 's \<Rightarrow> 's \<Rightarrow> nat \<Rightarrow> move list
     \<Rightarrow> RepresentationsBuffer \<times> move list" where
  "generate_batched e board deck score other_score turn_of possible_moves =
     (let b = length possible_moves;
          tiles = map (\<lambda>m. take 2 (drop 6 m)) possible_moves;
          board_r = batch_get_updated_states e board possible_moves;
          deck_r = batch_peek_next_states e deck tiles;
          move_scores = batch_calculate_move_scores e board possible_moves;
          (updated_scores, ingenious, num_ingenious) = batch_peek_next_scores e score move_scores;
          next_decks = batch_peek_next_decks e deck tiles;
          can_exchange = batch_peek_can_exchange_tiles e next_decks updated_scores;
          other = get_score e other_score;
          scores_r = map (\<lambda>idx. [updated_scores ! idx, other]) [0..<b];
          general_repr_dont_exchange =
            map (\<lambda>i. [ingenious ! i, num_ingenious ! i, can_exchange ! i, 0, move_num e board]) [0..<b];
          general_repr_do_exchange =
            map (\<lambda>i. [ingenious ! i, num_ingenious ! i, can_exchange ! i, 1, move_num e board]) [0..<b];
          possible_moves_stacked = possible_moves @ possible_moves;
          board_repr_stacked = board_r @ board_r;
          deck_repr_stacked = deck_r @ deck_r;
          scores_repr_stacked = scores_r @ scores_r;
          general_repr_stacked = general_repr_dont_exchange @ general_repr_do_exchange;
          can_exchange_stacked = can_exchange @ can_exchange;
          should_exchange_stacked = replicate b (0::nat) @ replicate b 1;
          valid_idxs = np_where_valid can_exchange_stacked should_exchange_stacked;
          possible_moves_subset = map (\<lambda>i. map (\<lambda>x. x mod 256) (possible_moves_stacked ! i)) valid_idxs;
          board_repr_subset = map (\<lambda>i. map (map (map of_nat)) (board_repr_stacked ! i)) valid_idxs;
          deck_repr_subset = map (\<lambda>i. map (map of_nat) (deck_repr_stacked ! i)) valid_idxs;
          scores_repr_subset = map (\<lambda>i. map (map of_int) (scores_repr_stacked ! i)) valid_idxs;
          general_repr_subset = map (\<lambda>i. map of_nat (general_repr_stacked ! i)) valid_idxs;
          turn_of_r = replicate (length valid_idxs) (of_nat turn_of);
          values_r = replicate (length valid_idxs) [0, 0];
          new_reprs_buffer = get_new_reprs_buffer
      in (set_batched_reprs_from_scratch new_reprs_buffer board_repr_subset deck_repr_subset
            scores_repr_subset general_repr_subset turn_of_r values_r,
          possible_moves_subset))"

section \<open>Predicted values\<close>

text \<open>
  A predicted value is a float32. Only its order matters to the strategies, so a value
  is a real number, an infinity or NaN. The order is the one of \<^verbatim>\<open>np.argmax\<close>,
  \<^verbatim>\<open>np.max\<close> and \<^verbatim>\<open>np.argsort\<close>: NaN ranks above every number (argmax
  returns the first NaN, max returns NaN, argsort puts NaN last).
\<close>

datatype f32 = NInf | Fin real | PInf | NaN

fun f32_le :: "f32 \<Rightarrow> f32 \<Rightarrow> bool" where
  "f32_le NInf b = True"
| "f32_le a NaN = True"
| "f32_le (Fin x) (Fin y) = (x \<le> y)"
| "f32_le (Fin x) PInf = True"
| "f32_le PInf PInf = True"
| "f32_le a b = False"

instantiation f32 :: linorder
begin

definition less_eq_f32 :: "f32 \<Rightarrow> f32 \<Rightarrow> bool" where
  "less_eq_f32 a b = f32_le a b"

definition less_f32 :: "f32 \<Rightarrow> f32 \<Rightarrow> bool" where
  "less_f32 a b = (f32_le a b \<and> \<not> f32_le b a)"

instance
proof
  fix x y z :: f32
  show "(x < y) = (x \<le> y \<and> \<not> y \<le> x)"
    by (simp add: less_f32_def less_eq_f32_def)
  show "x \<le> x"
    by (cases x) (simp_all add: less_eq_f32_def)
  show "x \<le> y \<Longrightarrow> y \<le> z \<Longrightarrow> x \<le> z"
    by (cases x; cases y; cases z) (simp_all add: less_eq_f32_def)
  show "x \<le> y \<Longrightarrow> y \<le> x \<Longrightarrow> x = y"
    by (cases x; cases y) (simp_all add: less_eq_f32_def)
  show "x \<le> y \<or> y \<le> x"
    by (cases x; cases y) (auto simp: less_eq_f32_def)
qed

end

fun f32_neg :: "f32 \<Rightarrow> f32" where
  "f32_neg NInf = PInf"
| "f32_neg (Fin x) = Fin (- x)"
| "f32_neg PInf = NInf"
| "f32_neg NaN = NaN"

fun is_finite :: "f32 \<Rightarrow> bool" where
  "is_finite (Fin x) = True"
| "is_finite v = False"

datatype error = ValueError | IndexError | ZeroDivisionError

text \<open>
  The array \<^verbatim>\<open>run_model\<close> returns: \<^verbatim>\<open>torch.squeeze\<close> turns the model's output of
  shape \<open>(b, 1)\<close> into a vector of \<open>b\<close> values, and into a zero-dimensional array
  when \<open>b = 1\<close>. A zero-dimensional array cannot be indexed.
\<close>

datatype ndarray = Scalar f32 | Vec "f32 list"

definition squeeze :: "f32 list \<Rightarrow> ndarray" where
  "squeeze ys = (case ys of [y] \<Rightarrow> Scalar y | _ \<Rightarrow> Vec ys)"

text \<open>\<^verbatim>\<open>values if values.shape else np.expand_dims(values, 0)\<close>\<close>

fun as_vector :: "ndarray \<Rightarrow> f32 list" where
  "as_vector (Scalar v) = [v]"
| "as_vector (Vec vs) = vs"

fun nd_argmax :: "ndarray \<Rightarrow> error + nat" where
  "nd_argmax (Scalar v) = Inr 0"
| "nd_argmax (Vec vs) = (case np_argmax vs of None \<Rightarrow> Inl ValueError | Some i \<Rightarrow> Inr i)"

fun nd_index :: "ndarray \<Rightarrow> nat \<Rightarrow> error + f32" where
  "nd_index (Scalar v) i = Inl IndexError"
| "nd_index (Vec vs) i = (if i < length vs then Inr (vs ! i) else Inl IndexError)"

text \<open>
  \<^verbatim>\<open>np.argsort\<close>, ascending. Ties keep their index order here; numpy leaves the
  order of ties open for its default sort, and no result below depends on it.
\<close>

fun nd_argsort :: "ndarray \<Rightarrow> nat list" where
  "nd_argsort (Scalar v) = [0]"
| "nd_argsort (Vec vs) = sort_key (\<lambda>i. vs ! i) [0..<length vs]"

definition row_at :: "'a list \<Rightarrow> nat \<Rightarrow> error + 'a" where
  "row_at xs i = (if i < length xs then Inr (xs ! i) else Inl IndexError)"

text \<open>\<^verbatim>\<open>a[lo:hi]\<close> with \<open>0 \<le> lo \<le> hi\<close>, and \<^verbatim>\<open>a[-k:]\<close>.\<close>

definition slice_rows :: "nat \<Rightarrow> nat \<Rightarrow> 'a list \<Rightarrow> 'a list" where
  "slice_rows lo hi xs = take (hi - lo) (drop lo xs)"

definition last_rows :: "nat \<Rightarrow> 'a list \<Rightarrow> 'a list" where
  "last_rows k xs = (if k = 0 then xs else drop (length xs - k) xs)"

section \<open>The learned strategy and its batching glue\<close>

text \<open>
  \<^verbatim>\<open>RLVanilla\<close>. The model is a function from a batch (grid rows, vector rows) to
  one value per row. \<open>prepare_model_inputs\<close> stands for the tensor preprocessing of
  \<^verbatim>\<open>augment\<close>, \<^verbatim>\<open>normalise\<close> and \<^verbatim>\<open>prepare\<close>: it draws a colour permutation
  and two flips from the random generator \<open>'g\<close> and returns the rows for the model; its
  result reaches nothing but the model, and it leaves \<open>general_repr\<close> as it is.
\<close>

record ('g, 'gi, 'vi) RLVanilla =
  model :: "'gi list \<times> 'vi list \<Rightarrow> f32 list"
  max_batch :: nat
  prepare_model_inputs :: "RepresentationsBuffer \<Rightarrow> 'g \<Rightarrow> ('gi list \<times> 'vi list) \<times> 'g"

definition run_model :: "('gi list \<times> 'vi list \<Rightarrow> f32 list) \<Rightarrow> 'gi list \<times> 'vi list \<Rightarrow> ndarray" where
  "run_model m inputs = squeeze (m inputs)"

text \<open>One pass of the loop of \<^verbatim>\<open>predict_values\<close>: sub-batch \<open>i\<close>.\<close>

definition predict_values_pass ::
  "nat \<Rightarrow> ('gi list \<times> 'vi list \<Rightarrow> f32 list) \<Rightarrow> 'gi list \<times> 'vi list \<Rightarrow> nat \<Rightarrow> f32 list \<Rightarrow> f32 list" where
  "predict_values_pass mb m model_inputs i all_values =
     (let inputs_subset = (slice_rows (i * mb) ((i + 1) * mb) (fst model_inputs),
                           slice_rows (i * mb) ((i + 1) * mb) (snd model_inputs));
          values_subset = run_model m inputs_subset;
          values_subset = as_vector values_subset
      in all_values @ values_subset)"

definition predict_values ::
  "nat \<Rightarrow> ('gi list \<times> 'vi list \<Rightarrow> f32 list) \<Rightarrow> 'gi list \<times> 'vi list \<Rightarrow> error + ndarray" where
  "predict_values mb m model_inputs =
     (if mb = 0 then Inl ZeroDivisionError
      else
        (let num_inputs = length (fst model_inputs);
             num_full_minibatches = num_inputs div mb;
             remainder = num_inputs mod mb
         in if num_full_minibatches = 0 then Inr (run_model m model_inputs)
            else
              (let all_values = [Fin 0];
                   num_passes = (if remainder > 0 then num_full_minibatches + 1
                                 else num_full_minibatches);
                   all_values = fold (predict_values_pass mb m model_inputs) [0..<num_passes] all_values
               in Inr (Vec (drop 1 all_values)))))"

text \<open>An estimator that is a pure function of each row.\<close>

definition per_row :: "('gi \<Rightarrow> 'vi \<Rightarrow> f32) \<Rightarrow> 'gi list \<times> 'vi list \<Rightarrow> f32 list" where
  "per_row f inputs = map2 f (fst inputs) (snd inputs)"

section \<open>The game state as objects in a store\<close>

text \<open>
  The search engine receives the live board, deck and score ledgers by reference and
  simulates on copies. To state that the live objects are left alone, the objects live
  in a store: a board, a deck or a score ledger is a position in the list of all boards,
  decks or ledgers, and a mutator replaces the value at the position of its receiver.
  The store also holds the state of the random generator that the input preparation
  draws from.

  Modelled from the spec: \<^verbatim>\<open>get_copy\<close> of board, deck and score ledger and
  \<^verbatim>\<open>create_dummy_deck\<close> belong to code that is not at hand. The specification
  describes them as \<open>copy() -> independent GameState\<close> and as creating a placeholder
  deck: each allocates a new object (the next free position) and changes no other.
\<close>

record ('b, 'd, 's, 'g) world =
  boards :: "'b list"
  decks :: "'d list"
  scores :: "'s list"
  rng :: 'g

definition board_get_copy :: "nat \<Rightarrow> ('b, 'd, 's, 'g) world \<Rightarrow> nat \<times> ('b, 'd, 's, 'g) world" where
  "board_get_copy r w = (length (boards w), w\<lparr>boards := boards w @ [boards w ! r]\<rparr>)"

definition deck_get_copy :: "nat \<Rightarrow> ('b, 'd, 's, 'g) world \<Rightarrow> nat \<times> ('b, 'd, 's, 'g) world" where
  "deck_get_copy r w = (length (decks w), w\<lparr>decks := decks w @ [decks w ! r]\<rparr>)"

definition score_get_copy :: "nat \<Rightarrow> ('b, 'd, 's, 'g) world \<Rightarrow> nat \<times> ('b, 'd, 's, 'g) world" where
  "score_get_copy r w = (length (scores w), w\<lparr>scores := scores w @ [scores w ! r]\<rparr>)"

definition deck_create_dummy_deck ::
  "('b, 'd, 's) engine \<Rightarrow> nat \<Rightarrow> ('b, 'd, 's, 'g) world \<Rightarrow> nat \<times> ('b, 'd, 's, 'g) world" where
  "deck_create_dummy_deck e r w =
     (length (decks w), w\<lparr>decks := decks w @ [create_dummy_deck e (decks w ! r)]\<rparr>)"

section \<open>The vanilla learned strategy\<close>

text \<open>
  \<open>repr_fn\<close> is the encoder handed to \<open>choose_move\<close>
  (\<open>generate_batched\<close>); it reads the four objects and the candidate batch.
\<close>

type_synonym ('b, 'd, 's) repr_fn =
  "'b \<Rightarrow> 'd \<Rightarrow> 's \<Rightarrow> 's \<Rightarrow> nat \<Rightarrow> move list \<Rightarrow> RepresentationsBuffer \<times> move list"

definition get_representations ::
  "('b, 'd, 's) engine \<Rightarrow> ('b, 'd, 's) repr_fn \<Rightarrow> nat \<Rightarrow> nat \<Rightarrow> nat \<Rightarrow> nat \<Rightarrow> nat
     \<Rightarrow> ('b, 'd, 's, 'g) world \<Rightarrow> RepresentationsBuffer \<times> move list" where
  "get_representations e repr_fn board deck score other_score turn_of w =
     (let possible_moves = possible_moves_of e (boards w ! board) (decks w ! deck)
      in repr_fn (boards w ! board) (decks w ! deck) (scores w ! score) (scores w ! other_score)
           turn_of possible_moves)"

text \<open>
  The three lines that every decision point of the learned strategies starts with:
  \<^verbatim>\<open>get_representations\<close>, \<^verbatim>\<open>prepare_model_inputs\<close>, \<^verbatim>\<open>predict_values\<close>.
\<close>

definition evaluate_moves ::
  "('g, 'gi, 'vi) RLVanilla \<Rightarrow> ('b, 'd, 's) engine \<Rightarrow> ('b, 'd, 's) repr_fn
     \<Rightarrow> nat \<Rightarrow> nat \<Rightarrow> nat \<Rightarrow> nat \<Rightarrow> nat \<Rightarrow> ('b, 'd, 's, 'g) world
     \<Rightarrow> error + ((RepresentationsBuffer \<times> move list \<times> ndarray) \<times> ('b, 'd, 's, 'g) world)" where
  "evaluate_moves self e repr_fn board deck score other_score turn_of w =
     (let (representations, possible_moves_subset) =
            get_representations e repr_fn board deck score other_score turn_of w;
          (model_inputs, g) = prepare_model_inputs self representations (rng w);
          w = w\<lparr>rng := g\<rparr>
      in case predict_values (max_batch self) (model self) model_inputs of
           Inl err \<Rightarrow> Inl err
         | Inr move_values \<Rightarrow> Inr ((representations, possible_moves_subset, move_values), w))"

text \<open>
  The three lines that pick the greedy move:
  \<^verbatim>\<open>move_idx = np.argmax(move_values)\<close>,
  \<^verbatim>\<open>move = possible_moves_subset[move_idx]\<close>,
  \<^verbatim>\<open>move_value = move_values[move_idx]\<close>.
\<close>

definition argmax_move :: "move list \<Rightarrow> ndarray \<Rightarrow> error + (nat \<times> move \<times> f32)" where
  "argmax_move possible_moves_subset move_values =
     (case nd_argmax move_values of
        Inl err \<Rightarrow> Inl err
      | Inr move_idx \<Rightarrow>
          (case row_at possible_moves_subset move_idx of
             Inl err \<Rightarrow> Inl err
           | Inr move \<Rightarrow>
               (case nd_index move_values move_idx of
                  Inl err \<Rightarrow> Inl err
                | Inr move_value \<Rightarrow> Inr (move_idx, move, move_value))))"

definition RLVanilla_choose_move ::
  "('g, 'gi, 'vi) RLVanilla \<Rightarrow> ('b, 'd, 's) engine \<Rightarrow> ('b, 'd, 's) repr_fn
     \<Rightarrow> nat \<Rightarrow> nat \<Rightarrow> nat \<Rightarrow> nat \<Rightarrow> nat \<Rightarrow> ('b, 'd, 's, 'g) world
     \<Rightarrow> error + (((move \<times> 8 word) \<times> f32) \<times> ('b, 'd, 's, 'g) world)" where
  "RLVanilla_choose_move self e repr_fn board deck score other_score turn_of w =
     (case evaluate_moves self e repr_fn board deck score other_score turn_of w of
        Inl err \<Rightarrow> Inl err
      | Inr ((representations, possible_moves_subset, move_values), w) \<Rightarrow>
          (case nd_argmax move_values of
             Inl err \<Rightarrow> Inl err
           | Inr move_idx \<Rightarrow>
               (case row_at possible_moves_subset move_idx of
                  Inl err \<Rightarrow> Inl err
                | Inr best_move \<Rightarrow>
                    (case row_at (general_repr representations) move_idx of
                       Inl err \<Rightarrow> Inl err
                     | Inr general_row \<Rightarrow>
                         (case nd_index move_values move_idx of
                            Inl err \<Rightarrow> Inl err
                          | Inr best_move_value \<Rightarrow>
                              Inr (((best_move, general_row ! 3), best_move_value), w))))))"

section \<open>Simulated turns\<close>

text \<open>
  \<open>mock_move\<close> mutates the three objects it is given.
\<close>

definition mock_move ::
  "('b, 'd, 's) engine \<Rightarrow> move \<Rightarrow> nat \<Rightarrow> nat \<Rightarrow> nat \<Rightarrow> ('b, 'd, 's, 'g) world
     \<Rightarrow> (nat \<times> nat \<times> nat \<times> bool) \<times> ('b, 'd, 's, 'g) world" where
  "mock_move e chosen_move board score deck w =
     (let move_score = calculate_move_score e (boards w ! board) chosen_move;
          (new_score, ingenious, _) = update_score e (scores w ! score) move_score;
          w = w\<lparr>scores := (scores w)[score := new_score]\<rparr>;
          w = w\<lparr>boards := (boards w)[board := update_board e (boards w ! board) chosen_move]\<rparr>;
          tile_to_play = [chosen_move ! 6 mod 256, chosen_move ! 7 mod 256];
          w = w\<lparr>decks := (decks w)[deck := play_tile e (decks w ! deck) tile_to_play]\<rparr>
      in ((board, score, deck, ingenious), w))"

text \<open>
  \<open>mock_turn\<close>: the loop runs until the game is over or a move earns no bonus move.
  Nothing in the strategy bounds it, so not returning is the value \<open>None\<close>; an
  exception is \<open>Some (Inl err)\<close>.
\<close>

type_synonym search_state = "nat \<times> nat \<times> nat \<times> nat"

partial_function (option) mock_turn ::
  "('g, 'gi, 'vi) RLVanilla \<Rightarrow> ('b, 'd, 's) engine \<Rightarrow> ('b, 'd, 's) repr_fn
     \<Rightarrow> search_state \<Rightarrow> move \<Rightarrow> f32 \<Rightarrow> nat \<Rightarrow> ('b, 'd, 's, 'g) world
     \<Rightarrow> (error + ((search_state \<times> bool \<times> f32) \<times> ('b, 'd, 's, 'g) world)) option" where
  "mock_turn self e repr_fn state move move_value turn_of w =
     (case state of (board, score, other_score, deck) \<Rightarrow>
       (case mock_move e move board score deck w of ((board, score, deck, ingenious), w) \<Rightarrow>
          if game_is_finished e (boards w ! board) then
            (let p1_score = get_score e (scores w ! score);
                 p2_score = get_score e (scores w ! other_score);
                 winner = find_winner_fast e p1_score p2_score;
                 move_value = (if winner = turn_of then Fin 1 else Fin (- 1))
             in Some (Inr (((board, score, other_score, deck), True, move_value), w)))
          else if \<not> ingenious then
            Some (Inr (((board, score, other_score, deck), False, move_value), w))
          else
            (case evaluate_moves self e repr_fn board deck score other_score turn_of w of
               Inl err \<Rightarrow> Some (Inl err)
             | Inr ((representations, possible_moves_subset, move_values), w) \<Rightarrow>
                 (case argmax_move possible_moves_subset move_values of
                    Inl err \<Rightarrow> Some (Inl err)
                  | Inr (move_idx, move, move_value) \<Rightarrow>
                      mock_turn self e repr_fn (board, score, other_score, deck)
                        move move_value turn_of w))))"

section \<open>Two-ply and three-ply search\<close>

text \<open>Sequencing of steps that may raise or may not return.\<close>

fun bind_run :: "(error + 'a) option \<Rightarrow> ('a \<Rightarrow> (error + 'b) option) \<Rightarrow> (error + 'b) option" where
  "bind_run None f = None"
| "bind_run (Some (Inl err)) f = Some (Inl err)"
| "bind_run (Some (Inr x)) f = f x"

definition search_n :: nat where
  "search_n = 8"

text \<open>
  The \<^verbatim>\<open>for i in range(num_to_search)\<close> loop: \<open>body i\<close> is one branch and returns
  the value stored in \<^verbatim>\<open>top_k_values[i]\<close>.
\<close>

fun search_loop ::
  "(nat \<Rightarrow> 'w \<Rightarrow> (error + f32 \<times> 'w) option) \<Rightarrow> nat list \<Rightarrow> f32 list \<Rightarrow> 'w
     \<Rightarrow> (error + f32 list \<times> 'w) option" where
  "search_loop body [] top_k_values w = Some (Inr (top_k_values, w))"
| "search_loop body (i # is) top_k_values w =
     bind_run (body i w) (\<lambda>(v, w). search_loop body is (top_k_values[i := v]) w)"

text \<open>The lines after the loop, shared by both searches.\<close>

definition best_of_branches ::
  "RepresentationsBuffer \<Rightarrow> move list \<Rightarrow> nat list \<Rightarrow> f32 list \<Rightarrow> error + ((move \<times> 8 word) \<times> f32)" where
  "best_of_branches representations_original possible_moves_subset_original top_k_indices top_k_values =
     (case np_argmax top_k_values of
        None \<Rightarrow> Inl ValueError
      | Some j \<Rightarrow>
          (case row_at top_k_indices j of
             Inl err \<Rightarrow> Inl err
           | Inr best_move_idx \<Rightarrow>
               (case np_max top_k_values of
                  None \<Rightarrow> Inl ValueError
                | Some best_move_value \<Rightarrow>
                    (case row_at possible_moves_subset_original best_move_idx of
                       Inl err \<Rightarrow> Inl err
                     | Inr best_move \<Rightarrow>
                         (case row_at (general_repr representations_original) best_move_idx of
                            Inl err \<Rightarrow> Inl err
                          | Inr general_row \<Rightarrow>
                              Inr ((best_move, general_row ! 3), best_move_value))))))"

text \<open>The four \<^verbatim>\<open>get_copy\<close> lines that open every pass of the search loops.\<close>

definition copy_state ::
  "nat \<Rightarrow> nat \<Rightarrow> nat \<Rightarrow> nat \<Rightarrow> ('b, 'd, 's, 'g) world \<Rightarrow> search_state \<times> ('b, 'd, 's, 'g) world" where
  "copy_state board_original score_original other_score_original deck_original w =
     (let (board, w) = board_get_copy board_original w;
          (score, w) = score_get_copy score_original w;
          (other_score, w) = score_get_copy other_score_original w;
          (deck, w) = deck_get_copy deck_original w
      in ((board, score, other_score, deck), w))"

text \<open>
  The lines under \<^verbatim>\<open># Other's move\<close>, the same in both searches: the opponent's
  candidates are encoded with a dummy deck, the opponent's greedy move is taken, and its
  turn is simulated on the state with the two score ledgers swapped and a second dummy
  deck, from the perspective of \<^verbatim>\<open>get_other_player(turn_of)\<close>.
\<close>

definition opponent_turn ::
  "('g, 'gi, 'vi) RLVanilla \<Rightarrow> ('b, 'd, 's) engine \<Rightarrow> ('b, 'd, 's) repr_fn
     \<Rightarrow> nat \<Rightarrow> nat \<Rightarrow> nat \<Rightarrow> nat \<Rightarrow> nat \<Rightarrow> ('b, 'd, 's, 'g) world
     \<Rightarrow> (error + ((search_state \<times> bool \<times> f32) \<times> ('b, 'd, 's, 'g) world)) option" where
  "opponent_turn self e repr_fn board deck score other_score turn_of w =
     (let (dummy, w) = deck_create_dummy_deck e deck w in
      bind_run (Some (evaluate_moves self e repr_fn board dummy other_score score
                        (get_other_player e turn_of) w))
        (\<lambda>((representations, possible_moves_subset, move_values), w).
      bind_run (Some (argmax_move possible_moves_subset move_values))
        (\<lambda>(move_idx, move, move_value).
      (let (dummy, w) = deck_create_dummy_deck e deck w in
       mock_turn self e repr_fn (board, other_score, score, dummy) move move_value
         (get_other_player e turn_of) w))))"

text \<open>One pass of the loop of \<open>RL2PlySearch.choose_move\<close>.\<close>

definition RL2PlySearch_branch ::
  "('g, 'gi, 'vi) RLVanilla \<Rightarrow> ('b, 'd, 's) engine \<Rightarrow> ('b, 'd, 's) repr_fn
     \<Rightarrow> nat \<Rightarrow> nat \<Rightarrow> nat \<Rightarrow> nat \<Rightarrow> nat \<Rightarrow> move list \<Rightarrow> ndarray \<Rightarrow> nat list
     \<Rightarrow> nat \<Rightarrow> ('b, 'd, 's, 'g) world \<Rightarrow> (error + f32 \<times> ('b, 'd, 's, 'g) world) option" where
  "RL2PlySearch_branch self e repr_fn board_original deck_original score_original
       other_score_original turn_of possible_moves_subset_original move_values_original
       top_k_indices i w =
     (let ((board, score, other_score, deck), w) =
            copy_state board_original score_original other_score_original deck_original w
      in
      bind_run (Some (row_at top_k_indices i)) (\<lambda>move_idx.
      bind_run (Some (row_at possible_moves_subset_original move_idx)) (\<lambda>move.
      bind_run (Some (nd_index move_values_original move_idx)) (\<lambda>move_value.
      bind_run (mock_turn self e repr_fn (board, score, other_score, deck) move move_value turn_of w)
        (\<lambda>(((board, score, unused, deck), game_finished, move_value), w).
      if game_finished then Some (Inr (move_value, w))
      else
        bind_run (opponent_turn self e repr_fn board deck score other_score turn_of w)
          (\<lambda>((unused, unused', move_value), w).
        Some (Inr (f32_neg move_value, w))))))))"

definition RL2PlySearch_choose_move ::
  "('g, 'gi, 'vi) RLVanilla \<Rightarrow> ('b, 'd, 's) engine \<Rightarrow> ('b, 'd, 's) repr_fn
     \<Rightarrow> nat \<Rightarrow> nat \<Rightarrow> nat \<Rightarrow> nat \<Rightarrow> nat \<Rightarrow> ('b, 'd, 's, 'g) world
     \<Rightarrow> (error + (((move \<times> 8 word) \<times> f32) \<times> ('b, 'd, 's, 'g) world)) option" where
  "RL2PlySearch_choose_move self e repr_fn board_original deck_original score_original
       other_score_original turn_of w =
     bind_run (Some (evaluate_moves self e repr_fn board_original deck_original score_original
                       other_score_original turn_of w))
       (\<lambda>((representations_original, possible_moves_subset_original, move_values_original), w).
     (let num_to_search = min search_n (length possible_moves_subset_original);
          top_k_indices = last_rows num_to_search (nd_argsort move_values_original);
          top_k_values = replicate num_to_search (Fin 0)
      in
      bind_run (search_loop
                  (RL2PlySearch_branch self e repr_fn board_original deck_original score_original
                     other_score_original turn_of possible_moves_subset_original
                     move_values_original top_k_indices)
                  [0..<num_to_search] top_k_values w)
        (\<lambda>(top_k_values, w).
      bind_run (Some (best_of_branches representations_original possible_moves_subset_original
                        top_k_indices top_k_values))
        (\<lambda>result. Some (Inr (result, w))))))"

text \<open>
  The lines under \<^verbatim>\<open># Your second move\<close> of the three-ply search: the mover's
  candidates are encoded for \<^verbatim>\<open>turn_of\<close> with the mover's deck, the greedy move is
  taken, and its turn is simulated on \<^verbatim>\<open>(board, score, other_score, deck)\<close> with the
  player argument \<^verbatim>\<open>get_other_player(turn_of)\<close>.
\<close>

definition mover_second_turn ::
  "('g, 'gi, 'vi) RLVanilla \<Rightarrow> ('b, 'd, 's) engine \<Rightarrow> ('b, 'd, 's) repr_fn
     \<Rightarrow> nat \<Rightarrow> nat \<Rightarrow> nat \<Rightarrow> nat \<Rightarrow> nat \<Rightarrow> ('b, 'd, 's, 'g) world
     \<Rightarrow> (error + ((search_state \<times> bool \<times> f32) \<times> ('b, 'd, 's, 'g) world)) option" where
  "mover_second_turn self e repr_fn board deck score other_score turn_of w =
     bind_run (Some (evaluate_moves self e repr_fn board deck score other_score turn_of w))
       (\<lambda>((representations, possible_moves_subset, move_values), w).
     bind_run (Some (argmax_move possible_moves_subset move_values))
       (\<lambda>(move_idx, move, move_value).
     mock_turn self e repr_fn (board, score, other_score, deck) move move_value
       (get_other_player e turn_of) w))"

text \<open>One pass of the loop of \<open>RL3PlySearch.choose_move\<close>.\<close>

definition RL3PlySearch_branch ::
  "('g, 'gi, 'vi) RLVanilla \<Rightarrow> ('b, 'd, 's) engine \<Rightarrow> ('b, 'd, 's) repr_fn
     \<Rightarrow> nat \<Rightarrow> nat \<Rightarrow> nat \<Rightarrow> nat \<Rightarrow> nat \<Rightarrow> move list \<Rightarrow> ndarray \<Rightarrow> nat list
     \<Rightarrow> nat \<Rightarrow> ('b, 'd, 's, 'g) world \<Rightarrow> (error + f32 \<times> ('b, 'd, 's, 'g) world) option" where
  "RL3PlySearch_branch self e repr_fn board_original deck_original score_original
       other_score_original turn_of possible_moves_subset_original move_values_original
       top_k_indices i w =
     (let ((board, score, other_score, deck), w) =
            copy_state board_original score_original other_score_original deck_original w
      in
      bind_run (Some (row_at top_k_indices i)) (\<lambda>move_idx.
      bind_run (Some (row_at possible_moves_subset_original move_idx)) (\<lambda>move.
      bind_run (Some (nd_index move_values_original move_idx)) (\<lambda>move_value.
      bind_run (mock_turn self e repr_fn (board, score, other_score, deck) move move_value turn_of w)
        (\<lambda>(((board, score, unused, deck), game_finished, move_value), w).
      if game_finished then Some (Inr (move_value, w))
      else
        bind_run (opponent_turn self e repr_fn board deck score other_score turn_of w)
          (\<lambda>(((board, other_score, unused, unused'), game_finished, move_value), w).
        if game_finished then Some (Inr (f32_neg move_value, w))
        else
          bind_run (mover_second_turn self e repr_fn board deck score other_score turn_of w)
            (\<lambda>((unused, unused', move_value), w).
          Some (Inr (move_value, w)))))))))"

definition RL3PlySearch_choose_move ::
  "('g, 'gi, 'vi) RLVanilla \<Rightarrow> ('b, 'd, 's) engine \<Rightarrow> ('b, 'd, 's) repr_fn
     \<Rightarrow> nat \<Rightarrow> nat \<Rightarrow> nat \<Rightarrow> nat \<Rightarrow> nat \<Rightarrow> ('b, 'd, 's, 'g) world
     \<Rightarrow> (error + (((move \<times> 8 word) \<times> f32) \<times> ('b, 'd, 's, 'g) world)) option" where
  "RL3PlySearch_choose_move self e repr_fn board_original deck_original score_original
       other_score_original turn_of w =
     bind_run (Some (evaluate_moves self e repr_fn board_original deck_original score_original
                       other_score_original turn_of w))
       (\<lambda>((representations_original, possible_moves_subset_original, move_values_original), w).
     (let num_to_search = min search_n (length possible_moves_subset_original);
          top_k_indices = last_rows num_to_search (nd_argsort move_values_original);
          top_k_values = replicate num_to_search (Fin 0)
      in
      bind_run (search_loop
                  (RL3PlySearch_branch self e repr_fn board_original deck_original score_original
                     other_score_original turn_of possible_moves_subset_original
                     move_values_original top_k_indices)
                  [0..<num_to_search] top_k_values w)
        (\<lambda>(top_k_values, w).
      bind_run (Some (best_of_branches representations_original possible_moves_subset_original
                        top_k_indices top_k_values))
        (\<lambda>result. Some (Inr (result, w))))))"

text \<open>
  The frame of a run from store \<open>w\<close> to store \<open>w'\<close>: the first \<open>nb\<close> boards, \<open>nd\<close>
  decks and \<open>ns\<close> score ledgers hold the values they held, and no object has gone.
\<close>

definition frame ::
  "nat \<Rightarrow> nat \<Rightarrow> nat \<Rightarrow> ('b, 'd, 's, 'g) world \<Rightarrow> ('b, 'd, 's, 'g) world \<Rightarrow> bool" where
  "frame nb nd ns w w' \<longleftrightarrow>
     take nb (boards w') = take nb (boards w) \<and>
     take nd (decks w') = take nd (decks w) \<and>
     take ns (scores w') = take ns (scores w) \<and>
     length (boards w) \<le> length (boards w') \<and>
     length (decks w) \<le> length (decks w') \<and>
     length (scores w) \<le> length (scores w')"

section \<open>The quantities the selection rules are stated in\<close>

text \<open>
  These three definitions follow the words of the specification, not the code: the sum
  of a candidate's post-move scores over the colours that stand at the pre-move minimum,
  the total score gain of a candidate, and the deficit of one colour beyond the margin.
\<close>

definition aggregate_over_min :: "int list \<Rightarrow> int list \<Rightarrow> int" where
  "aggregate_over_min s row = (\<Sum>i\<in>{i. i < length s \<and> s ! i = Min (set s)}. row ! i)"

definition total_gain :: "int list \<Rightarrow> int list \<Rightarrow> int" where
  "total_gain s row = (\<Sum>i<length s. row ! i - s ! i)"

definition colour_deficit :: "int \<Rightarrow> int \<Rightarrow> int \<Rightarrow> int" where
  "colour_deficit mg opponent_score post_move_score =
     max (opponent_score - post_move_score + 36 + mg) 36 - 36"

definition summed_deficit :: "int \<Rightarrow> int list \<Rightarrow> int list \<Rightarrow> int" where
  "summed_deficit mg other row = (\<Sum>i<length other. colour_deficit mg (other ! i) (row ! i))"

section \<open>A small rules engine for concrete runs\<close>

text \<open>
  A stand-in for the collaborators, used only to run the strategies on concrete inputs.
  A board is its list of candidate moves, the number of moves played and the number of
  moves after which the game is over. The first six fields of a move are the points it
  scores per colour; a score is capped at 18, and reaching the cap is an ingenious
  event. The winner is player 1 when the first score vector has the larger total,
  player 2 when the second has, 0 for a draw.
\<close>

type_synonym toy_board = "move list \<times> nat \<times> nat"

definition toy_add_scores :: "int list \<Rightarrow> int list \<Rightarrow> int list" where
  "toy_add_scores s delta = map2 (\<lambda>a b. min 18 (a + b)) s delta"

definition toy_num_ingenious :: "int list \<Rightarrow> int list \<Rightarrow> nat" where
  "toy_num_ingenious s delta =
     length (filter (\<lambda>(a, b). a < 18 \<and> 18 \<le> a + b) (zip s delta))"

definition toy_engine :: "(toy_board, nat list list, int list) engine" where
  "toy_engine = \<lparr>
     get_all_possible_moves = (\<lambda>b. fst b),
     combine_moves_and_deck = (\<lambda>ms d. ms),
     get_deck = (\<lambda>d. d),
     batch_calculate_move_scores = (\<lambda>b ms. map (\<lambda>m. map int (take 6 m)) ms),
     batch_peek_next_scores = (\<lambda>s ds.
        (map (toy_add_scores s) ds,
         map (\<lambda>d. if 0 < toy_num_ingenious s d then 1 else 0) ds,
         map (toy_num_ingenious s) ds)),
     get_score = (\<lambda>s. s),
     calculate_move_score = (\<lambda>b m. map int (take 6 m)),
     update_score = (\<lambda>s d. (toy_add_scores s d, 0 < toy_num_ingenious s d, toy_num_ingenious s d)),
     update_board = (\<lambda>b m. (fst b, Suc (fst (snd b)), snd (snd b))),
     play_tile = (\<lambda>d t. remove1 t d),
     game_is_finished = (\<lambda>b. snd (snd b) \<le> fst (snd b)),
     create_dummy_deck = (\<lambda>d. []),
     find_winner_fast = (\<lambda>p1 p2. if sum_list p2 < sum_list p1 then 1
                                   else if sum_list p1 < sum_list p2 then 2 else 0),
     get_other_player = (\<lambda>t. if t = 1 then 2 else 1),
     move_num = (\<lambda>b. fst (snd b)),
     board_get_state_copy = (\<lambda>b. []),
     deck_get_state_copy = (\<lambda>d. d),
     batch_get_updated_states = (\<lambda>b ms. map (\<lambda>m. []) ms),
     batch_peek_next_states = (\<lambda>d ts. map (\<lambda>t. remove1 t d) ts),
     batch_peek_next_decks = (\<lambda>d ts. map (\<lambda>t. remove1 t d) ts),
     batch_peek_can_exchange_tiles = (\<lambda>ds ss. map (\<lambda>d. if d = [] then 1 else 0) ds)
   \<rparr>"

definition toy_move_a :: move where
  "toy_move_a = [1, 0, 0, 0, 0, 0, 0, 0]"

definition toy_move_b :: move where
  "toy_move_b = [0, 1, 0, 0, 0, 0, 0, 0]"

definition toy_call :: "(toy_board, nat list list, int list) call" where
  "toy_call = (([toy_move_a], 0, 40), [], [0, 0, 0, 0, 0, 0], [0, 0, 0, 0, 0, 0], False, 0)"

definition toy_erase :: move where
  "toy_erase = [0, 5, 0, 0, 0, 0, 0, 0]"

definition toy_unrelated :: move where
  "toy_unrelated = [0, 0, 10, 0, 0, 0, 0, 0]"

definition toy_capped_only :: move where
  "toy_capped_only = [3, 0, 0, 0, 0, 0, 0, 0]"

definition toy_raise_min :: move where
  "toy_raise_min = [0, 2, 0, 0, 0, 0, 0, 0]"

text \<open>
  A stand-in for a trained model: the value of a row is the sum of the mover's post-move
  scores. Its input preparation hands the general-info rows and the score rows to the
  model and advances the generator.
\<close>

definition toy_value :: "8 word list \<Rightarrow> 8 word list list \<Rightarrow> f32" where
  "toy_value g v = Fin (real (sum_list (map unat (v ! 0))))"

definition toy_self :: "(nat, 8 word list, 8 word list list) RLVanilla" where
  "toy_self = \<lparr>model = per_row toy_value, max_batch = 1024,
     prepare_model_inputs = (\<lambda>r g. ((general_repr r, scores_repr r), Suc g))\<rparr>"

definition toy_one :: move where
  "toy_one = [1, 0, 0, 0, 0, 0, 1, 1]"

definition toy_two :: move where
  "toy_two = [0, 2, 0, 0, 0, 0, 2, 2]"

text \<open>
  A live game: one board with two candidate moves that ends after three moves, the deck
  of player 1, and the score ledgers of player 1 and player 2.
\<close>

definition toy_world :: "(toy_board, nat list list, int list, nat) world" where
  "toy_world = \<lparr>boards = [([toy_one, toy_two], 0, 3)], decks = [[[1, 1], [2, 2]]],
     scores = [[0, 0, 0, 0, 0, 0], [0, 0, 0, 0, 0, 0]], rng = 0\<rparr>"

section \<open>Facts about the array primitives\<close>

lemma randint_range:
  assumes "randint low high u = Some r"
  shows "low \<le> r \<and> r < high"
proof -
  from assms have lt: "low < high" and r: "r = low + int (u mod nat (high - low))"
    by (auto simp: randint_def split: if_splits)
  from lt have "u mod nat (high - low) < nat (high - low)" by simp
  with r lt show ?thesis by linarith
qed

lemma randint_0_1: "randint 0 1 u = Some 0"
  by (simp add: randint_def)

lemma argmax_scan_result:
  "(argmax_scan best bi i xs = bi \<and> (\<forall>x\<in>set xs. x \<le> best)) \<or>
   (\<exists>j<length xs. argmax_scan best bi i xs = i + j \<and> best < xs ! j \<and>
        (\<forall>x\<in>set xs. x \<le> xs ! j) \<and> (\<forall>k<j. xs ! k < xs ! j))"
proof (induction xs arbitrary: best bi i)
  case Nil
  then show ?case by simp
next
  case (Cons x xs)
  show ?case
  proof (cases "best < x")
    case True
    from Cons.IH [of x i "Suc i"] show ?thesis
    proof
      assume a: "argmax_scan x i (Suc i) xs = i \<and> (\<forall>y\<in>set xs. y \<le> x)"
      with True have "0 < length (x # xs) \<and> argmax_scan best bi i (x # xs) = i + 0 \<and> best < (x # xs) ! 0 \<and>
        (\<forall>y\<in>set (x # xs). y \<le> (x # xs) ! 0) \<and> (\<forall>k<0. (x # xs) ! k < (x # xs) ! 0)" by simp
      then show ?thesis by blast
    next
      assume "\<exists>j<length xs. argmax_scan x i (Suc i) xs = Suc i + j \<and> x < xs ! j \<and>
        (\<forall>y\<in>set xs. y \<le> xs ! j) \<and> (\<forall>k<j. xs ! k < xs ! j)"
      then obtain j where j: "j < length xs" "argmax_scan x i (Suc i) xs = Suc i + j" "x < xs ! j"
        "\<forall>y\<in>set xs. y \<le> xs ! j" "\<forall>k<j. xs ! k < xs ! j" by blast
      have "\<forall>k<Suc j. (x # xs) ! k < (x # xs) ! Suc j"
        using j(3,5) by (auto simp: nth_Cons split: nat.splits)
      with True j have "Suc j < length (x # xs) \<and> argmax_scan best bi i (x # xs) = i + Suc j \<and>
        best < (x # xs) ! Suc j \<and> (\<forall>y\<in>set (x # xs). y \<le> (x # xs) ! Suc j) \<and>
        (\<forall>k<Suc j. (x # xs) ! k < (x # xs) ! Suc j)" by auto
      then show ?thesis by blast
    qed
  next
    case False
    from Cons.IH [of best bi "Suc i"] show ?thesis
    proof
      assume "argmax_scan best bi (Suc i) xs = bi \<and> (\<forall>y\<in>set xs. y \<le> best)"
      with False show ?thesis by auto
    next
      assume "\<exists>j<length xs. argmax_scan best bi (Suc i) xs = Suc i + j \<and> best < xs ! j \<and>
        (\<forall>y\<in>set xs. y \<le> xs ! j) \<and> (\<forall>k<j. xs ! k < xs ! j)"
      then obtain j where j: "j < length xs" "argmax_scan best bi (Suc i) xs = Suc i + j" "best < xs ! j"
        "\<forall>y\<in>set xs. y \<le> xs ! j" "\<forall>k<j. xs ! k < xs ! j" by blast
      from False j(3) have xj: "x < xs ! j" by simp
      have "\<forall>k<Suc j. (x # xs) ! k < (x # xs) ! Suc j"
        using xj j(5) by (auto simp: nth_Cons split: nat.splits)
      with False j xj have "Suc j < length (x # xs) \<and> argmax_scan best bi i (x # xs) = i + Suc j \<and>
        best < (x # xs) ! Suc j \<and> (\<forall>y\<in>set (x # xs). y \<le> (x # xs) ! Suc j) \<and>
        (\<forall>k<Suc j. (x # xs) ! k < (x # xs) ! Suc j)" by auto
      then show ?thesis by blast
    qed
  qed
qed

lemma np_argmax_spec:
  assumes "xs \<noteq> []"
  shows "\<exists>r. np_argmax xs = Some r \<and> r < length xs \<and> (\<forall>j<length xs. xs ! j \<le> xs ! r) \<and>
             (\<forall>j<r. xs ! j < xs ! r)"
proof -
  from assms obtain x ys where xs: "xs = x # ys" by (cases xs) auto
  from argmax_scan_result [of x 0 1 ys] show ?thesis
  proof
    assume a: "argmax_scan x 0 1 ys = 0 \<and> (\<forall>y\<in>set ys. y \<le> x)"
    then have "\<forall>j<length xs. xs ! j \<le> xs ! 0"
      unfolding xs by (auto simp: nth_Cons split: nat.splits)
    with a xs show ?thesis by simp
  next
    assume "\<exists>j<length ys. argmax_scan x 0 1 ys = 1 + j \<and> x < ys ! j \<and>
        (\<forall>y\<in>set ys. y \<le> ys ! j) \<and> (\<forall>k<j. ys ! k < ys ! j)"
    then obtain j where j: "j < length ys" "argmax_scan x 0 1 ys = 1 + j" "x < ys ! j"
        "\<forall>y\<in>set ys. y \<le> ys ! j" "\<forall>k<j. ys ! k < ys ! j" by blast
    have 1: "\<forall>k<length xs. xs ! k \<le> xs ! Suc j"
      unfolding xs using j(3,4) by (auto simp: nth_Cons split: nat.splits)
    have 2: "\<forall>k<Suc j. xs ! k < xs ! Suc j"
      unfolding xs using j(3,5) by (auto simp: nth_Cons split: nat.splits)
    from j(1,2) xs 1 2 show ?thesis by simp
  qed
qed

lemma np_max_spec: "xs \<noteq> [] \<Longrightarrow> np_max xs = Some (Max (set xs))"
proof (cases xs)
  case Nil
  assume "xs \<noteq> []"
  with Nil show ?thesis by simp
next
  case (Cons a list)
  have "fold max list a = Max (set (a # list))" by (rule Max.set_eq_fold [symmetric])
  with Cons show ?thesis by simp
qed

lemma np_min_spec: "xs \<noteq> [] \<Longrightarrow> np_min xs = Some (Min (set xs))"
proof (cases xs)
  case Nil
  assume "xs \<noteq> []"
  with Nil show ?thesis by simp
next
  case (Cons a list)
  have "fold min list a = Min (set (a # list))" by (rule Min.set_eq_fold [symmetric])
  with Cons show ?thesis by simp
qed

lemma set_np_where_eq: "set (np_where_eq xs v) = {i. i < length xs \<and> xs ! i = v}"
  by (auto simp: np_where_eq_def)

lemma distinct_np_where_eq: "distinct (np_where_eq xs v)"
  by (simp add: np_where_eq_def)

lemma sorted_np_where_eq: "sorted (np_where_eq xs v)"
  by (simp add: np_where_eq_def sorted_wrt_filter)

lemma np_where_eq_first:
  assumes "k < length xs" "xs ! k = v"
  shows "np_where_eq xs v \<noteq> [] \<and> np_where_eq xs v ! 0 \<le> k \<and> np_where_eq xs v ! 0 < length xs \<and>
         xs ! (np_where_eq xs v ! 0) = v"
proof -
  from assms have k: "k \<in> set (np_where_eq xs v)" by (simp add: set_np_where_eq)
  then have ne: "np_where_eq xs v \<noteq> []" by auto
  then have "np_where_eq xs v ! 0 \<in> set (np_where_eq xs v)" by simp
  then have h: "np_where_eq xs v ! 0 < length xs \<and> xs ! (np_where_eq xs v ! 0) = v"
    by (simp add: set_np_where_eq)
  from k obtain n where n: "n < length (np_where_eq xs v)" "np_where_eq xs v ! n = k"
    by (auto simp: in_set_conv_nth)
  from sorted_np_where_eq [of xs v] n have "np_where_eq xs v ! 0 \<le> k"
    by (metis le0 sorted_nth_mono)
  with ne h show ?thesis by simp
qed

lemma sum_list_where_eq:
  "sum_list (map f (np_where_eq xs v)) = (\<Sum>i\<in>{i. i < length xs \<and> xs ! i = v}. f i)"
  by (simp add: sum_list_distinct_conv_sum_set distinct_np_where_eq set_np_where_eq)

lemma sum_list_map2_minus:
  "length row = length s \<Longrightarrow> sum_list (map2 (-) row s) = total_gain s (row::int list)"
proof -
  assume l: "length row = length s"
  have "sum_list (map2 (-) row s) = (\<Sum>i = 0..<length (map2 (-) row s). map2 (-) row s ! i)"
    by (rule sum_list_sum_nth)
  also have "\<dots> = (\<Sum>i = 0..<length s. row ! i - s ! i)" using l by simp
  finally show ?thesis by (simp add: total_gain_def atLeast0LessThan)
qed


section \<open>The exchange decision\<close>

text \<open>
  C7. The exchange decision outside inference is meant to be a coin flip. The draw is
  \<^verbatim>\<open>np.random.randint(0, high=1)\<close>, whose range \<open>[0, 1)\<close> holds the single value 0,
  and the decision compares it with 1: for every raw draw the function returns false
  when \<open>inference\<close> is false, and true when \<open>inference\<close> is true.
\<close>

theorem choose_should_exchange_constant:
  "choose_should_exchange False u = Some False \<and> choose_should_exchange True u = Some True"
  by (simp add: choose_should_exchange_def randint_0_1)

section \<open>The random strategy\<close>

text \<open>
  C8. The index of the random strategy is drawn by
  \<^verbatim>\<open>np.random.randint(0, high=possible_moves.shape[0] - 1)\<close>, whose upper bound is
  exclusive: whatever the raw draw, the move returned stands at an index below the last
  one, and on a batch of one candidate the range is empty and the call raises.
\<close>

theorem choose_random_move_never_last:
  "(length (possible_moves_of e board deck) = 1 \<longrightarrow> choose_random_move e board deck u = None) \<and>
   (choose_random_move e board deck u = Some m \<longrightarrow>
      (\<exists>k. Suc k < length (possible_moves_of e board deck) \<and> m = possible_moves_of e board deck ! k))"
proof (intro conjI impI)
  assume "length (possible_moves_of e board deck) = 1"
  then show "choose_random_move e board deck u = None"
    by (simp add: choose_random_move_def randint_def)
next
  assume "choose_random_move e board deck u = Some m"
  then obtain r where r: "randint 0 (int (length (possible_moves_of e board deck)) - 1) u = Some r"
    and m: "m = possible_moves_of e board deck ! nat r"
    by (auto simp: choose_random_move_def Let_def split: Option.bind_splits)
  from randint_range [OF r] have "Suc (nat r) < length (possible_moves_of e board deck)"
    by linarith
  with m show "\<exists>k. Suc k < length (possible_moves_of e board deck) \<and> m = possible_moves_of e board deck ! k"
    by blast
qed

theorem choose_random_move_never_last_witness:
  "length (possible_moves_of toy_engine ([toy_move_a], 0, 40) []) = 1 \<and>
   choose_random_move toy_engine ([toy_move_a], 0, 40) [] 7 = None \<and>
   choose_random_move toy_engine ([toy_move_a, toy_move_b], 0, 40) [] 7 = Some toy_move_a \<and>
   (\<exists>k. Suc k < length (possible_moves_of toy_engine ([toy_move_a, toy_move_b], 0, 40) []) \<and>
        toy_move_a = possible_moves_of toy_engine ([toy_move_a, toy_move_b], 0, 40) [] ! k)"
proof -
  have one: "length (possible_moves_of toy_engine ([toy_move_a], 0, 40) []) = 1"
    by (simp add: possible_moves_of_def toy_engine_def)
  have two: "choose_random_move toy_engine ([toy_move_a, toy_move_b], 0, 40) [] 7 = Some toy_move_a"
    by (simp add: choose_random_move_def possible_moves_of_def toy_engine_def randint_def)
  from choose_random_move_never_last [of toy_engine "([toy_move_a], 0, 40)" "[]" 7] one
  have "choose_random_move toy_engine ([toy_move_a], 0, 40) [] 7 = None" by blast
  moreover from choose_random_move_never_last
    [of toy_engine "([toy_move_a, toy_move_b], 0, 40)" "[]" 7 toy_move_a] two
  have "\<exists>k. Suc k < length (possible_moves_of toy_engine ([toy_move_a, toy_move_b], 0, 40) []) \<and>
        toy_move_a = possible_moves_of toy_engine ([toy_move_a, toy_move_b], 0, 40) [] ! k" by blast
  ultimately show ?thesis using one two by blast
qed

section \<open>The margin schedules\<close>

lemma np_max_scalar_0: "np_max_scalar a 0 = Some a"
  by (simp add: np_max_scalar_def)

lemma MixedStrategy3_choose_move_margin:
  assumes "MixedStrategy3_choose_move e board deck score other_score inference u self = Some (r, self')"
  shows "margin self' = margin self - 1"
  using assms
  by (auto simp: MixedStrategy3_choose_move_def np_max_scalar_0 Let_def split: Option.bind_splits)

lemma MixedStrategy3_calls_margin:
  "MixedStrategy3_calls e cs self = Some self' \<Longrightarrow> margin self' = margin self - int (length cs)"
proof (induction cs arbitrary: self)
  case Nil
  then show ?case by simp
next
  case (Cons c cs)
  obtain board deck score other_score inference u
    where c: "c = (board, deck, score, other_score, inference, u)"
    by (cases c) auto
  from Cons.prems c obtain r s1 where
    step: "MixedStrategy3_choose_move e board deck score other_score inference u self = Some (r, s1)"
    and rest: "MixedStrategy3_calls e cs s1 = Some self'"
    by (auto split: Option.bind_splits)
  from MixedStrategy3_choose_move_margin [OF step] Cons.IH [OF rest]
  show ?case by simp
qed

lemma MixedStrategy4_choose_move_state:
  assumes "MixedStrategy4_choose_move e board deck score other_score inference u self = Some (r, self')"
  shows "(count self = 0 \<longrightarrow> margin self' = margin self - 1 \<and> count self' = 4) \<and>
         (count self \<noteq> 0 \<longrightarrow> margin self' = margin self \<and> count self' = count self - 1)"
  using assms
  by (auto simp: MixedStrategy4_choose_move_def np_max_scalar_0 Let_def
      split: Option.bind_splits if_splits)

text \<open>
  With \<open>k = 4 - count\<close> calls made since the last decrement, \<open>n\<close> further calls
  decrement the margin \<open>(n + k) div 5\<close> times.
\<close>

lemma MixedStrategy4_calls_state:
  "MixedStrategy4_calls e cs self = Some self' \<Longrightarrow> 0 \<le> count self \<Longrightarrow> count self \<le> 4 \<Longrightarrow>
     margin self' = margin self - (int (length cs) + (4 - count self)) div 5 \<and>
     count self' = 4 - (int (length cs) + (4 - count self)) mod 5"
proof (induction cs arbitrary: self)
  case Nil
  then show ?case by simp
next
  case (Cons c cs)
  obtain board deck score other_score inference u
    where c: "c = (board, deck, score, other_score, inference, u)"
    by (cases c) auto
  from Cons.prems(1) c obtain r s1 where
    step: "MixedStrategy4_choose_move e board deck score other_score inference u self = Some (r, s1)"
    and rest: "MixedStrategy4_calls e cs s1 = Some self'"
    by (auto split: Option.bind_splits)
  note st = MixedStrategy4_choose_move_state [OF step]
  show ?case
  proof (cases "count self = 0")
    case True
    with st have s1: "margin s1 = margin self - 1" "count s1 = 4" by auto
    from Cons.IH [OF rest] s1 True show ?thesis by simp
  next
    case False
    with st have s1: "margin s1 = margin self" "count s1 = count self - 1" by auto
    with Cons.prems False have "0 \<le> count s1" "count s1 \<le> 4" by auto
    from Cons.IH [OF rest this] s1 show ?thesis by (simp add: algebra_simps)
  qed
qed

text \<open>Runs of the stand-in engine: every call succeeds.\<close>

lemma toy_reduce_deficit_move:
  "choose_reduce_deficit_move toy_engine ([toy_move_a], 0, 40) [] [0, 0, 0, 0, 0, 0] [0, 0, 0, 0, 0, 0] m
     = Some toy_move_a"
  by (simp add: choose_reduce_deficit_move_def toy_engine_def possible_moves_of_def
      updated_scores_of_def reduce_deficit_diffs_def np_where_eq_def toy_add_scores_def toy_move_a_def)

lemma toy_MixedStrategy3_calls:
  "MixedStrategy3_calls toy_engine (replicate n toy_call) \<lparr>margin = m\<rparr> = Some \<lparr>margin = m - int n\<rparr>"
proof (induction n arbitrary: m)
  case 0
  then show ?case by simp
next
  case (Suc n)
  have "MixedStrategy3_calls toy_engine (replicate (Suc n) toy_call) \<lparr>margin = m\<rparr>
      = MixedStrategy3_calls toy_engine (replicate n toy_call) \<lparr>margin = m - 1\<rparr>"
    by (simp add: toy_call_def MixedStrategy3_choose_move_def toy_reduce_deficit_move
        np_max_scalar_0 choose_should_exchange_def randint_0_1)
  also have "\<dots> = Some \<lparr>margin = m - 1 - int n\<rparr>" by (rule Suc.IH)
  finally show ?case by (simp add: algebra_simps)
qed

lemma toy_MixedStrategy4_step:
  "MixedStrategy4_calls toy_engine (toy_call # cs) \<lparr>margin = m, count = c\<rparr>
     = MixedStrategy4_calls toy_engine cs
         (if c = 0 then \<lparr>margin = m - 1, count = 4\<rparr> else \<lparr>margin = m, count = c - 1\<rparr>)"
  by (simp add: toy_call_def MixedStrategy4_choose_move_def toy_reduce_deficit_move
      np_max_scalar_0 choose_should_exchange_def randint_0_1)

lemma toy_MixedStrategy4_five:
  "MixedStrategy4_calls toy_engine (replicate 5 toy_call @ cs) \<lparr>margin = m, count = 4\<rparr>
     = MixedStrategy4_calls toy_engine cs \<lparr>margin = m - 1, count = 4\<rparr>"
  by (simp add: numeral_eq_Suc toy_MixedStrategy4_step)

lemma toy_MixedStrategy4_calls:
  "MixedStrategy4_calls toy_engine (concat (replicate k (replicate 5 toy_call))) \<lparr>margin = m, count = 4\<rparr>
     = Some \<lparr>margin = m - int k, count = 4\<rparr>"
proof (induction k arbitrary: m)
  case 0
  then show ?case by simp
next
  case (Suc k)
  have "MixedStrategy4_calls toy_engine (concat (replicate (Suc k) (replicate 5 toy_call)))
          \<lparr>margin = m, count = 4\<rparr>
      = MixedStrategy4_calls toy_engine (concat (replicate k (replicate 5 toy_call)))
          \<lparr>margin = m - 1, count = 4\<rparr>"
    using toy_MixedStrategy4_five [of "concat (replicate k (replicate 5 toy_call))" m] by simp
  also have "\<dots> = Some \<lparr>margin = m - 1 - int k, count = 4\<rparr>" by (rule Suc.IH)
  finally show ?case by (simp add: algebra_simps)
qed

text \<open>
  C9. The margins of the schedule-based strategies are updated by
  \<^verbatim>\<open>np.max(self.margin - 1, 0)\<close>, which returns \<open>self.margin - 1\<close>: the 0 is
  taken as the axis. So the margin is not floored. After \<open>n\<close> calls that return, the
  margin of MixedStrategy3 is \<open>15 - n\<close> and the margin of MixedStrategy4 is
  \<open>5 - n div 5\<close>; both are negative from the 16th and the 30th call on, and the next
  call hands that negative margin to \<open>choose_reduce_deficit_move\<close>.
\<close>

theorem mixed_margins_not_floored:
  "(MixedStrategy3_calls e cs MixedStrategy3_init = Some s3 \<longrightarrow>
      margin s3 = 15 - int (length cs)) \<and>
   (MixedStrategy4_calls e cs MixedStrategy4_init = Some s4 \<longrightarrow>
      margin s4 = 5 - int (length cs) div 5)"
proof (intro conjI impI)
  assume "MixedStrategy3_calls e cs MixedStrategy3_init = Some s3"
  from MixedStrategy3_calls_margin [OF this]
  show "margin s3 = 15 - int (length cs)" by (simp add: MixedStrategy3_init_def)
next
  assume "MixedStrategy4_calls e cs MixedStrategy4_init = Some s4"
  from MixedStrategy4_calls_state [OF this]
  show "margin s4 = 5 - int (length cs) div 5" by (simp add: MixedStrategy4_init_def)
qed

theorem mixed_margins_not_floored_witness:
  "MixedStrategy3_calls toy_engine (replicate 16 toy_call) MixedStrategy3_init = Some \<lparr>margin = - 1\<rparr> \<and>
   margin \<lparr>margin = - 1\<rparr> = 15 - int (length (replicate 16 toy_call)) \<and>
   MixedStrategy4_calls toy_engine (concat (replicate 6 (replicate 5 toy_call))) MixedStrategy4_init
     = Some \<lparr>margin = - 1, count = 4\<rparr> \<and>
   margin \<lparr>margin = - 1, count = 4\<rparr>
     = 5 - int (length (concat (replicate 6 (replicate 5 toy_call)))) div 5"
proof -
  have r3: "MixedStrategy3_calls toy_engine (replicate 16 toy_call) MixedStrategy3_init
      = Some \<lparr>margin = - 1\<rparr>"
    using toy_MixedStrategy3_calls [of 16 15] by (simp add: MixedStrategy3_init_def)
  have r4: "MixedStrategy4_calls toy_engine (concat (replicate 6 (replicate 5 toy_call)))
      MixedStrategy4_init = Some \<lparr>margin = - 1, count = 4\<rparr>"
    using toy_MixedStrategy4_calls [of 6 5] by (simp add: MixedStrategy4_init_def)
  from mixed_margins_not_floored
    [of toy_engine "replicate 16 toy_call" "\<lparr>margin = - 1\<rparr>" "\<lparr>margin = - 1, count = 4\<rparr>"] r3
  have m3: "margin \<lparr>margin = - 1\<rparr> = 15 - int (length (replicate 16 toy_call))" by blast
  from mixed_margins_not_floored
    [of toy_engine "concat (replicate 6 (replicate 5 toy_call))" "\<lparr>margin = - 1\<rparr>"
        "\<lparr>margin = - 1, count = 4\<rparr>"] r4
  have m4: "margin \<lparr>margin = - 1, count = 4\<rparr>
      = 5 - int (length (concat (replicate 6 (replicate 5 toy_call)))) div 5" by blast
  from r3 m3 r4 m4 show ?thesis by blast
qed

section \<open>Sub-batched prediction\<close>

lemma as_vector_squeeze: "as_vector (squeeze ys) = ys"
  by (simp add: squeeze_def split: list.splits)

lemma as_vector_run_model: "as_vector (run_model (per_row f) (gs, vs)) = map2 f gs vs"
  by (simp add: run_model_def as_vector_squeeze per_row_def)

lemma take_slice_rows:
  "take (k * mb) xs @ slice_rows (k * mb) ((k + 1) * mb) xs = take (Suc k * mb) xs"
proof -
  have "take (k * mb + mb) xs = take (k * mb) xs @ take mb (drop (k * mb) xs)"
    by (rule take_add)
  then show ?thesis by (simp add: slice_rows_def add.commute)
qed

lemma predict_values_pass_per_row:
  "predict_values_pass mb (per_row f) (gs, vs) i acc
     = acc @ map2 f (slice_rows (i * mb) ((i + 1) * mb) gs) (slice_rows (i * mb) ((i + 1) * mb) vs)"
  by (simp only: predict_values_pass_def Let_def as_vector_run_model fst_conv snd_conv)

text \<open>After \<open>k\<close> passes the accumulator holds the values of the first \<open>k * mb\<close> rows.\<close>

lemma fold_sub_batches:
  assumes len: "length gs = length vs"
  shows "fold (predict_values_pass mb (per_row f) (gs, vs)) [0..<k] acc
         = acc @ map2 f (take (k * mb) gs) (take (k * mb) vs)"
proof (induction k)
  case 0
  then show ?case by simp
next
  case (Suc k)
  have l: "length (take (k * mb) gs) = length (take (k * mb) vs)" using len by simp
  have "map2 f (take (Suc k * mb) gs) (take (Suc k * mb) vs)
      = map2 f (take (k * mb) gs @ slice_rows (k * mb) ((k + 1) * mb) gs)
               (take (k * mb) vs @ slice_rows (k * mb) ((k + 1) * mb) vs)"
    by (simp only: take_slice_rows)
  also have "\<dots> = map2 f (take (k * mb) gs) (take (k * mb) vs)
      @ map2 f (slice_rows (k * mb) ((k + 1) * mb) gs) (slice_rows (k * mb) ((k + 1) * mb) vs)"
    using l by simp
  finally have step: "map2 f (take (Suc k * mb) gs) (take (Suc k * mb) vs)
      = map2 f (take (k * mb) gs) (take (k * mb) vs)
      @ map2 f (slice_rows (k * mb) ((k + 1) * mb) gs) (slice_rows (k * mb) ((k + 1) * mb) vs)" .
  have "fold (predict_values_pass mb (per_row f) (gs, vs)) [0..<Suc k] acc
      = predict_values_pass mb (per_row f) (gs, vs) k
          (fold (predict_values_pass mb (per_row f) (gs, vs)) [0..<k] acc)"
    by simp
  also have "\<dots> = (acc @ map2 f (take (k * mb) gs) (take (k * mb) vs))
      @ map2 f (slice_rows (k * mb) ((k + 1) * mb) gs) (slice_rows (k * mb) ((k + 1) * mb) vs)"
    by (simp only: Suc.IH predict_values_pass_per_row)
  finally show ?case by (simp only: step append_assoc)
qed

lemma passes_cover:
  assumes "1 \<le> (mb::nat)"
  shows "n \<le> (if n mod mb > 0 then n div mb + 1 else n div mb) * mb"
proof (cases "n mod mb > 0")
  case True
  have "n = n div mb * mb + n mod mb" by simp
  moreover have "n mod mb < mb" using assms by simp
  ultimately have "n < n div mb * mb + mb" by linarith
  with True show ?thesis by simp
next
  case False
  then have "n mod mb = 0" by simp
  then have "n = n div mb * mb" by auto
  with False show ?thesis by simp
qed

text \<open>
  C2. For a batch of aligned grid and vector rows, a threshold \<open>max_batch \<ge> 1\<close> and an
  estimator that is a pure function of each row, \<open>predict_values\<close> returns, and the
  values it returns are, element for element and in row order, the values of one
  \<open>run_model\<close> call on the whole batch: one value per row. (The values are compared
  through \<open>as_vector\<close>: for a batch of one row \<open>run_model\<close> yields a zero-dimensional
  array holding that one value.)
\<close>

theorem predict_values_eq_single_batch:
  assumes mb: "1 \<le> mb" and len: "length gs = length vs"
  shows "\<exists>r. predict_values mb (per_row f) (gs, vs) = Inr r \<and>
             as_vector r = as_vector (run_model (per_row f) (gs, vs)) \<and>
             as_vector r = map2 f gs vs \<and>
             length (as_vector r) = length gs"
proof (cases "length gs div mb = 0")
  case True
  with mb have "predict_values mb (per_row f) (gs, vs) = Inr (run_model (per_row f) (gs, vs))"
    by (simp add: predict_values_def)
  then show ?thesis using len by (simp add: as_vector_run_model)
next
  case False
  define k where "k = (if length gs mod mb > 0 then length gs div mb + 1 else length gs div mb)"
  have cover: "length gs \<le> k * mb" unfolding k_def by (rule passes_cover [OF mb])
  then have cover': "length vs \<le> k * mb" using len by simp
  have "predict_values mb (per_row f) (gs, vs)
      = Inr (Vec (drop 1 (fold (predict_values_pass mb (per_row f) (gs, vs)) [0..<k] [Fin 0])))"
    using mb False by (simp add: predict_values_def Let_def k_def)
  also have "\<dots> = Inr (Vec (drop 1 ([Fin 0] @ map2 f (take (k * mb) gs) (take (k * mb) vs))))"
    by (simp only: fold_sub_batches [OF len])
  also have "\<dots> = Inr (Vec (map2 f gs vs))" using cover cover' by simp
  finally show ?thesis using len by (simp add: as_vector_run_model)
qed

theorem predict_values_eq_single_batch_witness:
  "(1::nat) \<le> 2 \<and> length [1, 2, 3 :: nat] = length [10, 20, 30 :: nat] \<and>
   (\<exists>r. predict_values 2 (per_row (\<lambda>g v. Fin (real (g + v)))) ([1, 2, 3], [10, 20, 30]) = Inr r \<and>
        as_vector r
          = as_vector (run_model (per_row (\<lambda>g v. Fin (real (g + v)))) ([1, 2, 3], [10, 20, 30])) \<and>
        as_vector r = map2 (\<lambda>g v. Fin (real (g + v))) [1, 2, 3] [10, 20, 30] \<and>
        length (as_vector r) = length [1, 2, 3 :: nat])"
proof -
  have h1: "(1::nat) \<le> 2" by simp
  have h2: "length [1, 2, 3 :: nat] = length [10, 20, 30 :: nat]" by simp
  from predict_values_eq_single_batch [OF h1 h2, of "\<lambda>g v. Fin (real (g + v))"] h1 h2
  show ?thesis by blast
qed

section \<open>Size and empty flag of a fresh representation\<close>

lemma size_b_set_batched:
  "size_b (set_batched_reprs_from_scratch self br dr sr gr tr vr) = size_b self + of_nat (length br)"
  by (simp add: set_batched_reprs_from_scratch_def)

lemma empty_b_set_batched:
  "empty_b (set_batched_reprs_from_scratch self br dr sr gr tr vr) = 0"
  by (simp add: set_batched_reprs_from_scratch_def)

lemma generate_batched_flags:
  "empty_b (fst (generate_batched e board deck score other_score turn_of possible_moves)) = 0"
  unfolding generate_batched_def Let_def split_beta fst_conv
  by (rule empty_b_set_batched)

text \<open>The size is the number of rows kept: one or two per candidate.\<close>

lemma generate_batched_size:
  "size_b (fst (generate_batched e board deck score other_score turn_of possible_moves))
     = of_nat (length (np_where_valid
         (batch_peek_can_exchange_tiles e
            (batch_peek_next_decks e deck (map (\<lambda>m. take 2 (drop 6 m)) possible_moves))
            (fst (batch_peek_next_scores e score (batch_calculate_move_scores e board possible_moves)))
          @ batch_peek_can_exchange_tiles e
            (batch_peek_next_decks e deck (map (\<lambda>m. take 2 (drop 6 m)) possible_moves))
            (fst (batch_peek_next_scores e score (batch_calculate_move_scores e board possible_moves))))
         (replicate (length possible_moves) 0 @ replicate (length possible_moves) 1)))"
  unfolding generate_batched_def Let_def split_beta fst_conv
  by (simp add: size_b_set_batched get_new_reprs_buffer_def)

lemma generate_size_flags:
  "size_b (generate e board deck score other_score i n c x t) = 1 \<and>
   empty_b (generate e board deck score other_score i n c x t) = 0"
  by (simp add: generate_def Let_def set_single_reprs_from_scratch_def get_new_reprs_buffer_def)

lemma toy_next_decks_length: "length (batch_peek_next_decks toy_engine d ts) = length ts"
  by (simp add: toy_engine_def)

lemma toy_can_exchange_length: "length (batch_peek_can_exchange_tiles toy_engine ds us) = length ds"
  by (simp add: toy_engine_def)

text \<open>
  C3, as the claim states it, fails: the buffer that \<open>generate_batched\<close> returns for an
  empty candidate batch has its empty flag cleared, since
  \<open>set_batched_reprs_from_scratch\<close> sets \<open>empty = 0\<close> whatever the number of rows.
\<close>

theorem generate_batched_empty_flag_counterexample:
  "\<not> (size_b (fst (generate_batched toy_engine ([], 0, 40) [] [0, 0, 0, 0, 0, 0] [0, 0, 0, 0, 0, 0] 1 [])) = 0 \<and>
      empty_b (fst (generate_batched toy_engine ([], 0, 40) [] [0, 0, 0, 0, 0, 0] [0, 0, 0, 0, 0, 0] 1 [])) = 1)"
  by (simp add: generate_batched_flags)

text \<open>
  C3, amended. With collaborators that return one next deck per tile and one
  can-exchange flag per next deck, encoding a candidate batch of size 0 returns a
  representation of size 0 whose empty flag is 0 (false: the flag records that the
  buffer has been filled, not that it has no rows); encoding a single state returns a
  representation of size 1 whose empty flag is 0.
\<close>

theorem generate_batched_empty_batch:
  assumes decks: "\<And>d ts. length (batch_peek_next_decks e d ts) = length ts"
    and flags: "\<And>ds us. length (batch_peek_can_exchange_tiles e ds us) = length ds"
  shows "size_b (fst (generate_batched e board deck score other_score turn_of [])) = 0 \<and>
         empty_b (fst (generate_batched e board deck score other_score turn_of [])) = 0 \<and>
         size_b (generate e board deck score other_score i n c x t) = 1 \<and>
         empty_b (generate e board deck score other_score i n c x t) = 0"
proof -
  have "batch_peek_can_exchange_tiles e (batch_peek_next_decks e deck []) us = []" for us
    using decks [of deck "[]"] flags [of "batch_peek_next_decks e deck []" us] by simp
  then have "size_b (fst (generate_batched e board deck score other_score turn_of [])) = 0"
    by (simp add: generate_batched_size np_where_valid_def)
  then show ?thesis by (simp add: generate_batched_flags generate_size_flags)
qed

theorem generate_batched_empty_batch_witness:
  "(\<forall>d ts. length (batch_peek_next_decks toy_engine d ts) = length ts) \<and>
   (\<forall>ds us. length (batch_peek_can_exchange_tiles toy_engine ds us) = length ds) \<and>
   size_b (fst (generate_batched toy_engine ([], 0, 40) [] [0, 0, 0, 0, 0, 0] [0, 0, 0, 0, 0, 0] 1 [])) = 0 \<and>
   empty_b (fst (generate_batched toy_engine ([], 0, 40) [] [0, 0, 0, 0, 0, 0] [0, 0, 0, 0, 0, 0] 1 [])) = 0 \<and>
   size_b (generate toy_engine ([], 0, 40) [] [0, 0, 0, 0, 0, 0] [0, 0, 0, 0, 0, 0] 0 0 0 0 [1]) = 1 \<and>
   empty_b (generate toy_engine ([], 0, 40) [] [0, 0, 0, 0, 0, 0] [0, 0, 0, 0, 0, 0] 0 0 0 0 [1]) = 0"
  using generate_batched_empty_batch [of toy_engine "([], 0, 40)" "[]" "[0, 0, 0, 0, 0, 0]"
      "[0, 0, 0, 0, 0, 0]" 1 0 0 0 0 "[1]", OF toy_next_decks_length toy_can_exchange_length]
    toy_next_decks_length toy_can_exchange_length
  by simp

section \<open>The deficit-reducing strategy\<close>

lemma tie_break_spec:
  fixes g :: "nat \<Rightarrow> int"
  assumes k0: "k0 < length xs" "xs ! k0 = m"
  shows "\<exists>k<length xs. xs ! k = m \<and> (\<forall>j<length xs. xs ! j = m \<longrightarrow> g j \<le> g k) \<and>
           (if length (np_where_eq xs m) = 1 then Some (pm ! (np_where_eq xs m ! 0))
            else (case np_argmax (map g (np_where_eq xs m)) of None \<Rightarrow> None
                  | Some mi \<Rightarrow> Some (map (\<lambda>i. pm ! i) (np_where_eq xs m) ! mi))) = Some (pm ! k)"
proof -
  define idxs where "idxs = np_where_eq xs m"
  have mem: "j \<in> set idxs \<longleftrightarrow> j < length xs \<and> xs ! j = m" for j
    by (simp add: idxs_def set_np_where_eq)
  from k0 have ne: "idxs \<noteq> []" using mem [of k0] by auto
  have "\<exists>k<length xs. xs ! k = m \<and> (\<forall>j<length xs. xs ! j = m \<longrightarrow> g j \<le> g k) \<and>
           (if length idxs = 1 then Some (pm ! (idxs ! 0))
            else (case np_argmax (map g idxs) of None \<Rightarrow> None
                  | Some mi \<Rightarrow> Some (map (\<lambda>i. pm ! i) idxs ! mi))) = Some (pm ! k)"
  proof (cases "length idxs = 1")
    case True
    then obtain a where one: "idxs = [a]" by (cases idxs) auto
    with mem have only: "j < length xs \<and> xs ! j = m \<longleftrightarrow> j = a" for j by simp
    from only [of a] have a: "a < length xs" "xs ! a = m" by simp_all
    have best: "\<forall>j<length xs. xs ! j = m \<longrightarrow> g j \<le> g a"
    proof (intro allI impI)
      fix j assume "j < length xs" "xs ! j = m"
      with only [of j] show "g j \<le> g a" by simp
    qed
    from one have "(if length idxs = 1 then Some (pm ! (idxs ! 0))
            else (case np_argmax (map g idxs) of None \<Rightarrow> None
                  | Some mi \<Rightarrow> Some (map (\<lambda>i. pm ! i) idxs ! mi))) = Some (pm ! a)" by simp
    with a best show ?thesis by (intro exI [of _ a]) simp
  next
    case False
    from ne have "map g idxs \<noteq> []" by simp
    from np_argmax_spec [OF this] obtain mi where mi: "np_argmax (map g idxs) = Some mi"
      "mi < length idxs" "\<forall>j<length idxs. g (idxs ! j) \<le> g (idxs ! mi)"
      by auto
    from mi(2) have "idxs ! mi \<in> set idxs" by simp
    with mem have k: "idxs ! mi < length xs" "xs ! (idxs ! mi) = m" by auto
    have best: "\<forall>j<length xs. xs ! j = m \<longrightarrow> g j \<le> g (idxs ! mi)"
    proof (intro allI impI)
      fix j assume "j < length xs" "xs ! j = m"
      with mem have "j \<in> set idxs" by simp
      then obtain n where "n < length idxs" "idxs ! n = j" by (auto simp: in_set_conv_nth)
      with mi(3) show "g j \<le> g (idxs ! mi)" by auto
    qed
    from False mi(1,2) have "(if length idxs = 1 then Some (pm ! (idxs ! 0))
            else (case np_argmax (map g idxs) of None \<Rightarrow> None
                  | Some mi \<Rightarrow> Some (map (\<lambda>i. pm ! i) idxs ! mi))) = Some (pm ! (idxs ! mi))"
      by simp
    with k best show ?thesis by (intro exI [of _ "idxs ! mi"]) simp
  qed
  then show ?thesis unfolding idxs_def .
qed

lemma total_scores_diff_gain:
  assumes "\<forall>row\<in>set rows. length row = length s"
  shows "total_scores_diff rows s = map (total_gain s) rows"
  using assms by (simp add: total_scores_diff_def sum_list_map2_minus)

lemma reduce_deficit_row:
  assumes "j < length rows"
  shows "reduce_deficit_diffs other rows mg ! j
     = map (\<lambda>x. x - 36) (map (\<lambda>x. if x < 36 then 36 else x)
            (map (\<lambda>x. x + 36 + mg) (map2 (-) other (rows ! j))))"
  using assms by (simp only: reduce_deficit_diffs_def Let_def nth_map length_map)

lemma reduce_deficit_diffs_length: "length (reduce_deficit_diffs other rows mg) = length rows"
  by (simp add: reduce_deficit_diffs_def Let_def)

lemma reduce_deficit_diffs_nth:
  assumes "j < length rows" "i < length other" "length (rows ! j) = length other"
  shows "reduce_deficit_diffs other rows mg ! j ! i = colour_deficit mg (other ! i) (rows ! j ! i)"
  using assms by (simp add: reduce_deficit_row colour_deficit_def max_def)

lemma reduce_deficit_total:
  assumes "j < length rows" "length (rows ! j) = length other"
  shows "sum_list (reduce_deficit_diffs other rows mg ! j) = summed_deficit mg other (rows ! j)"
proof -
  let ?l = "reduce_deficit_diffs other rows mg ! j"
  have len: "length ?l = length other" using assms by (simp add: reduce_deficit_row)
  have "sum_list ?l = (\<Sum>i = 0..<length ?l. ?l ! i)" by (rule sum_list_sum_nth)
  also have "\<dots> = (\<Sum>i = 0..<length other. colour_deficit mg (other ! i) (rows ! j ! i))"
    unfolding len using assms by (intro sum.cong refl) (simp add: reduce_deficit_diffs_nth)
  finally show ?thesis by (simp add: summed_deficit_def atLeast0LessThan)
qed

lemma reduce_deficit_totals:
  assumes "\<forall>row\<in>set rows. length row = length other"
  shows "map sum_list (reduce_deficit_diffs other rows mg) = map (summed_deficit mg other) rows"
proof (rule nth_equalityI)
  show "length (map sum_list (reduce_deficit_diffs other rows mg))
      = length (map (summed_deficit mg other) rows)"
    by (simp add: reduce_deficit_diffs_length)
next
  fix j assume "j < length (map sum_list (reduce_deficit_diffs other rows mg))"
  then have j: "j < length rows" by (simp add: reduce_deficit_diffs_length)
  with assms have "length (rows ! j) = length other" by simp
  from reduce_deficit_total [OF j this] j
  show "map sum_list (reduce_deficit_diffs other rows mg) ! j = map (summed_deficit mg other) rows ! j"
    by (simp add: reduce_deficit_diffs_length)
qed


lemma choose_reduce_deficit_move_unfold:
  assumes ne: "updated_scores_of e board deck score \<noteq> []"
    and wf: "\<forall>row\<in>set (updated_scores_of e board deck score).
          length row = length (get_score e other_score) \<and> length row = length (get_score e score)"
  shows "choose_reduce_deficit_move e board deck score other_score mg =
     (if length (np_where_eq (map (summed_deficit mg (get_score e other_score))
                                  (updated_scores_of e board deck score))
                   (Min (set (map (summed_deficit mg (get_score e other_score))
                                  (updated_scores_of e board deck score))))) = 1
      then Some (possible_moves_of e board deck !
                 (np_where_eq (map (summed_deficit mg (get_score e other_score))
                                  (updated_scores_of e board deck score))
                   (Min (set (map (summed_deficit mg (get_score e other_score))
                                  (updated_scores_of e board deck score)))) ! 0))
      else (case np_argmax (map (\<lambda>i. total_gain (get_score e score) (updated_scores_of e board deck score ! i))
                (np_where_eq (map (summed_deficit mg (get_score e other_score))
                                  (updated_scores_of e board deck score))
                   (Min (set (map (summed_deficit mg (get_score e other_score))
                                  (updated_scores_of e board deck score)))))) of
              None \<Rightarrow> None
            | Some mi \<Rightarrow> Some (map (\<lambda>i. possible_moves_of e board deck ! i)
                (np_where_eq (map (summed_deficit mg (get_score e other_score))
                                  (updated_scores_of e board deck score))
                   (Min (set (map (summed_deficit mg (get_score e other_score))
                                  (updated_scores_of e board deck score))))) ! mi)))"
proof -
  let ?us = "updated_scores_of e board deck score"
  let ?tds = "map (summed_deficit mg (get_score e other_score)) ?us"
  have tds: "map sum_list (reduce_deficit_diffs (get_score e other_score) ?us mg) = ?tds"
    by (rule reduce_deficit_totals) (use wf in auto)
  have gains: "total_scores_diff ?us (get_score e score) = map (total_gain (get_score e score)) ?us"
    by (rule total_scores_diff_gain) (use wf in auto)
  from ne have "?tds \<noteq> []" by simp
  then have mn: "np_min ?tds = Some (Min (set ?tds))" by (rule np_min_spec)
  have idx: "map (\<lambda>i. map (total_gain (get_score e score)) ?us ! i) (np_where_eq ?tds v)
      = map (\<lambda>i. total_gain (get_score e score) (?us ! i)) (np_where_eq ?tds v)" for v
    by (rule map_cong [OF refl]) (simp add: set_np_where_eq)
  have bind_case: "Option.bind m f = (case m of None \<Rightarrow> None | Some x \<Rightarrow> f x)"
    for m :: "nat option" and f :: "nat \<Rightarrow> move option"
    by (cases m) simp_all
  show ?thesis
    unfolding choose_reduce_deficit_move_def Let_def tds gains mn idx bind_case
    by (simp only: bind.bind_lunit option.case)
qed

lemma Min_nth_le:
  fixes xs :: "int list"
  assumes "j < length xs"
  shows "Min (set xs) \<le> xs ! j"
  using assms by simp

lemma Min_attained:
  fixes xs :: "int list"
  assumes "xs \<noteq> []"
  shows "\<exists>k<length xs. xs ! k = Min (set xs)"
proof -
  from assms have "Min (set xs) \<in> set xs" by (intro Min_in) simp_all
  then show ?thesis by (auto simp: in_set_conv_nth)
qed

lemma Max_attained:
  fixes xs :: "int list"
  assumes "xs \<noteq> []"
  shows "\<exists>k<length xs. xs ! k = Max (set xs)"
proof -
  from assms have "Max (set xs) \<in> set xs" by (intro Max_in) simp_all
  then show ?thesis by (auto simp: in_set_conv_nth)
qed

lemma colour_deficit_nonneg: "0 \<le> colour_deficit mg a b"
  by (simp add: colour_deficit_def)

lemma summed_deficit_erased:
  assumes c: "c < length s" and len: "length other = length s"
    and lead: "other ! c = s ! c + 5" and rest: "\<forall>i<length s. i \<noteq> c \<longrightarrow> other ! i \<le> s ! i"
  shows "summed_deficit 0 other (s[c := s ! c + 5]) = 0"
proof -
  have "colour_deficit 0 (other ! i) (s[c := s ! c + 5] ! i) = 0" if "i < length other" for i
  proof (cases "i = c")
    case True
    with c lead show ?thesis by (simp add: colour_deficit_def)
  next
    case False
    with rest that len have "other ! i \<le> s ! i" by simp
    with False show ?thesis by (simp add: colour_deficit_def)
  qed
  then show ?thesis by (simp add: summed_deficit_def)
qed

lemma summed_deficit_unrelated:
  assumes c: "c < length s" and len: "length other = length s" and cd: "c \<noteq> d"
    and lead: "other ! c = s ! c + 5"
  shows "5 \<le> summed_deficit 0 other (s[d := s ! d + 10])"
proof -
  have "colour_deficit 0 (other ! c) (s[d := s ! d + 10] ! c) = 5"
    using cd lead by (simp add: colour_deficit_def)
  moreover have "colour_deficit 0 (other ! c) (s[d := s ! d + 10] ! c)
      \<le> (\<Sum>i<length other. colour_deficit 0 (other ! i) (s[d := s ! d + 10] ! i))"
    using c len by (intro member_le_sum) (simp_all add: colour_deficit_nonneg)
  ultimately show ?thesis by (simp add: summed_deficit_def)
qed

text \<open>
  C5. For a non-empty candidate batch, a margin \<open>\<ge> 0\<close> and score vectors of the width
  of the batch's rows: every entry of the deficit matrix is
  \<open>max (opponent - post_move + 36 + margin) 36 - 36\<close>; the move returned is a candidate
  whose summed deficit is minimal, and among the candidates of minimal summed deficit
  one of maximal total score gain; and with margin 0, when the opponent leads on exactly
  one colour by exactly 5, a candidate \<open>a\<close> that raises that colour by 5 and a candidate
  \<open>b\<close> that raises another colour by 10 are in the batch, the chosen candidate has
  summed deficit 0 and is not \<open>b\<close>.
\<close>

theorem choose_reduce_deficit_move_minimises:
  fixes e :: "('b, 'd, 's) engine" and board deck score other_score
  defines "pm \<equiv> possible_moves_of e board deck"
    and "us \<equiv> updated_scores_of e board deck score"
    and "s \<equiv> get_score e score"
    and "other \<equiv> get_score e other_score"
  assumes nonempty: "pm \<noteq> []" and rows: "length us = length pm"
    and wf: "\<forall>row\<in>set us. length row = length s" and len: "length other = length s"
    and mg: "0 \<le> mg"
  shows "(\<forall>j<length pm. \<forall>i<length s.
            reduce_deficit_diffs other us mg ! j ! i = colour_deficit mg (other ! i) (us ! j ! i)) \<and>
         (\<exists>k<length pm.
            choose_reduce_deficit_move e board deck score other_score mg = Some (pm ! k) \<and>
            (\<forall>j<length pm. summed_deficit mg other (us ! k) \<le> summed_deficit mg other (us ! j)) \<and>
            (\<forall>j<length pm. summed_deficit mg other (us ! j) = summed_deficit mg other (us ! k)
                 \<longrightarrow> total_gain s (us ! j) \<le> total_gain s (us ! k)) \<and>
            (\<forall>a<length pm. \<forall>b<length pm. \<forall>c<length s. \<forall>d<length s.
                 mg = 0 \<and> c \<noteq> d \<and> other ! c = s ! c + 5 \<and>
                 (\<forall>i<length s. i \<noteq> c \<longrightarrow> other ! i \<le> s ! i) \<and>
                 us ! a = s[c := s ! c + 5] \<and> us ! b = s[d := s ! d + 10]
                 \<longrightarrow> k \<noteq> b \<and> summed_deficit mg other (us ! k) = 0))"
proof
  show "\<forall>j<length pm. \<forall>i<length s.
      reduce_deficit_diffs other us mg ! j ! i = colour_deficit mg (other ! i) (us ! j ! i)"
  proof (intro allI impI)
    fix j i assume j: "j < length pm" and i: "i < length s"
    from j rows wf have "length (us ! j) = length other" using len by simp
    with j i rows len show "reduce_deficit_diffs other us mg ! j ! i
        = colour_deficit mg (other ! i) (us ! j ! i)"
      by (intro reduce_deficit_diffs_nth) simp_all
  qed
next
  let ?tds = "map (summed_deficit mg other) us"
  let ?g = "\<lambda>i. total_gain s (us ! i)"
  from nonempty rows have us_ne: "us \<noteq> []" by auto
  then have "?tds \<noteq> []" by simp
  from Min_attained [OF this] obtain k0 where k0: "k0 < length ?tds" "?tds ! k0 = Min (set ?tds)"
    by blast
  from tie_break_spec [OF k0, of ?g pm] obtain k where k: "k < length ?tds"
    "?tds ! k = Min (set ?tds)"
    "\<forall>j<length ?tds. ?tds ! j = Min (set ?tds) \<longrightarrow> ?g j \<le> ?g k"
    "(if length (np_where_eq ?tds (Min (set ?tds))) = 1
        then Some (pm ! (np_where_eq ?tds (Min (set ?tds)) ! 0))
        else (case np_argmax (map ?g (np_where_eq ?tds (Min (set ?tds)))) of None \<Rightarrow> None
              | Some mi \<Rightarrow> Some (map (\<lambda>i. pm ! i) (np_where_eq ?tds (Min (set ?tds))) ! mi)))
      = Some (pm ! k)"
    by blast
  have wf': "\<forall>row\<in>set (updated_scores_of e board deck score).
          length row = length (get_score e other_score) \<and> length row = length (get_score e score)"
    using wf len by (simp add: us_def s_def other_def)
  have us_ne': "updated_scores_of e board deck score \<noteq> []" using us_ne by (simp add: us_def)
  from k(4) have res: "choose_reduce_deficit_move e board deck score other_score mg = Some (pm ! k)"
    unfolding choose_reduce_deficit_move_unfold [OF us_ne' wf', of mg] pm_def us_def s_def other_def .
  from k(1) rows have klt: "k < length pm" by simp
  have kmin: "summed_deficit mg other (us ! k) = Min (set ?tds)" using k(1,2) by simp
  have least: "\<forall>j<length pm. summed_deficit mg other (us ! k) \<le> summed_deficit mg other (us ! j)"
  proof (intro allI impI)
    fix j assume "j < length pm"
    with rows have j: "j < length ?tds" by simp
    from Min_nth_le [OF j] j kmin show "summed_deficit mg other (us ! k) \<le> summed_deficit mg other (us ! j)"
      by simp
  qed
  have ties: "\<forall>j<length pm. summed_deficit mg other (us ! j) = summed_deficit mg other (us ! k)
      \<longrightarrow> total_gain s (us ! j) \<le> total_gain s (us ! k)"
    using k(3) kmin rows by simp
  have scen: "\<forall>a<length pm. \<forall>b<length pm. \<forall>c<length s. \<forall>d<length s.
                 mg = 0 \<and> c \<noteq> d \<and> other ! c = s ! c + 5 \<and>
                 (\<forall>i<length s. i \<noteq> c \<longrightarrow> other ! i \<le> s ! i) \<and>
                 us ! a = s[c := s ! c + 5] \<and> us ! b = s[d := s ! d + 10]
                 \<longrightarrow> k \<noteq> b \<and> summed_deficit mg other (us ! k) = 0"
  proof (intro allI impI, elim conjE)
    fix a b c d
    assume a: "a < length pm" and b: "b < length pm" and c: "c < length s" and d: "d < length s"
      and m0: "mg = 0" and cd: "c \<noteq> d" and lead: "other ! c = s ! c + 5"
      and rest: "\<forall>i<length s. i \<noteq> c \<longrightarrow> other ! i \<le> s ! i"
      and ua: "us ! a = s[c := s ! c + 5]" and ub: "us ! b = s[d := s ! d + 10]"
    have za: "summed_deficit mg other (us ! a) = 0"
      unfolding ua m0 by (rule summed_deficit_erased [OF c len lead rest])
    have zb: "5 \<le> summed_deficit mg other (us ! b)"
      unfolding ub m0 by (rule summed_deficit_unrelated [OF c len cd lead])
    from least a za have "summed_deficit mg other (us ! k) \<le> 0" by auto
    moreover have "0 \<le> summed_deficit mg other (us ! k)"
      by (simp add: summed_deficit_def sum_nonneg colour_deficit_nonneg)
    ultimately have zk: "summed_deficit mg other (us ! k) = 0" by simp
    with zb show "k \<noteq> b \<and> summed_deficit mg other (us ! k) = 0" by auto
  qed
  from klt res least ties scen
  show "\<exists>k<length pm.
            choose_reduce_deficit_move e board deck score other_score mg = Some (pm ! k) \<and>
            (\<forall>j<length pm. summed_deficit mg other (us ! k) \<le> summed_deficit mg other (us ! j)) \<and>
            (\<forall>j<length pm. summed_deficit mg other (us ! j) = summed_deficit mg other (us ! k)
                 \<longrightarrow> total_gain s (us ! j) \<le> total_gain s (us ! k)) \<and>
            (\<forall>a<length pm. \<forall>b<length pm. \<forall>c<length s. \<forall>d<length s.
                 mg = 0 \<and> c \<noteq> d \<and> other ! c = s ! c + 5 \<and>
                 (\<forall>i<length s. i \<noteq> c \<longrightarrow> other ! i \<le> s ! i) \<and>
                 us ! a = s[c := s ! c + 5] \<and> us ! b = s[d := s ! d + 10]
                 \<longrightarrow> k \<noteq> b \<and> summed_deficit mg other (us ! k) = 0)"
    by (intro exI [of _ k] conjI)
qed


lemma toy_possible_moves: "possible_moves_of toy_engine (ms, n, l) d = ms"
  by (simp add: possible_moves_of_def toy_engine_def)

lemma toy_updated_scores:
  "updated_scores_of toy_engine (ms, n, l) d s = map (\<lambda>m. toy_add_scores s (map int (take 6 m))) ms"
  by (simp add: updated_scores_of_def possible_moves_of_def toy_engine_def comp_def)

lemma toy_get_score: "get_score toy_engine s = s"
  by (simp add: toy_engine_def)

lemma toy_reduce_deficit_scores:
  "updated_scores_of toy_engine ([toy_unrelated, toy_erase], 0, 40) [] [3, 3, 3, 3, 3, 3]
     = [[3, 3, 13, 3, 3, 3], [3, 8, 3, 3, 3, 3]]"
  by (simp add: toy_updated_scores toy_add_scores_def toy_unrelated_def toy_erase_def)

theorem choose_reduce_deficit_move_minimises_witness:
  "possible_moves_of toy_engine ([toy_unrelated, toy_erase], 0, 40) [] \<noteq> [] \<and>
   updated_scores_of toy_engine ([toy_unrelated, toy_erase], 0, 40) [] [3, 3, 3, 3, 3, 3]
     = [[3, 3, 13, 3, 3, 3], [3, 8, 3, 3, 3, 3]] \<and>
   (0::int) \<le> 0 \<and>
   choose_reduce_deficit_move toy_engine ([toy_unrelated, toy_erase], 0, 40) []
     [3, 3, 3, 3, 3, 3] [3, 8, 3, 3, 3, 3] 0 = Some toy_erase"
proof -
  let ?b = "([toy_unrelated, toy_erase], 0::nat, 40::nat)"
  let ?s = "[3, 3, 3, 3, 3, 3] :: int list"
  let ?o = "[3, 8, 3, 3, 3, 3] :: int list"
  let ?pm = "possible_moves_of toy_engine ?b []"
  let ?us = "updated_scores_of toy_engine ?b [] ?s"
  have pm: "?pm = [toy_unrelated, toy_erase]"
    by (rule toy_possible_moves)
  note us = toy_reduce_deficit_scores
  have h1: "?pm \<noteq> []" by (simp add: pm)
  have h2: "length ?us = length ?pm" by (simp add: pm us)
  have h3: "\<forall>row\<in>set ?us. length row = length (get_score toy_engine ?s)"
    by (simp add: us toy_get_score)
  have h4: "length (get_score toy_engine ?o) = length (get_score toy_engine ?s)"
    by (simp add: toy_get_score)
  have h5: "(0::int) \<le> 0" by simp
  from choose_reduce_deficit_move_minimises [OF h1 h2 h3 h4 h5]
  obtain k where k: "k < length ?pm"
    "choose_reduce_deficit_move toy_engine ?b [] ?s ?o 0 = Some (?pm ! k)"
    and scen: "\<forall>a<length ?pm. \<forall>b<length ?pm.
       \<forall>c<length (get_score toy_engine ?s). \<forall>d<length (get_score toy_engine ?s).
          (0::int) = 0 \<and> c \<noteq> d \<and> get_score toy_engine ?o ! c = get_score toy_engine ?s ! c + 5 \<and>
          (\<forall>i<length (get_score toy_engine ?s). i \<noteq> c
              \<longrightarrow> get_score toy_engine ?o ! i \<le> get_score toy_engine ?s ! i) \<and>
          ?us ! a = (get_score toy_engine ?s)[c := get_score toy_engine ?s ! c + 5] \<and>
          ?us ! b = (get_score toy_engine ?s)[d := get_score toy_engine ?s ! d + 10]
          \<longrightarrow> k \<noteq> b \<and> summed_deficit 0 (get_score toy_engine ?o) (?us ! k) = 0"
    by blast
  have rest: "\<forall>i<length (get_score toy_engine ?s). i \<noteq> 1
      \<longrightarrow> get_score toy_engine ?o ! i \<le> get_score toy_engine ?s ! i"
    by (auto simp: toy_get_score nth_Cons split: nat.splits)
  have prem: "(0::int) = 0 \<and> (1::nat) \<noteq> 2 \<and>
      get_score toy_engine ?o ! 1 = get_score toy_engine ?s ! 1 + 5 \<and>
      (\<forall>i<length (get_score toy_engine ?s). i \<noteq> 1
          \<longrightarrow> get_score toy_engine ?o ! i \<le> get_score toy_engine ?s ! i) \<and>
      ?us ! 1 = (get_score toy_engine ?s)[1 := get_score toy_engine ?s ! 1 + 5] \<and>
      ?us ! 0 = (get_score toy_engine ?s)[2 := get_score toy_engine ?s ! 2 + 10]"
    using rest by (simp add: us toy_get_score)
  have b1: "1 < length ?pm" "0 < length ?pm" by (simp_all add: pm)
  have b2: "1 < length (get_score toy_engine ?s)" "2 < length (get_score toy_engine ?s)"
    by (simp_all add: toy_get_score)
  from scen [rule_format, OF b1(1) b1(2) b2(1) b2(2) prem] have "k \<noteq> 0" by simp
  with k(1) have "k = 1" by (simp add: pm)
  with k(2) have "choose_reduce_deficit_move toy_engine ?b [] ?s ?o 0 = Some toy_erase"
    by (simp add: pm)
  with h1 us show ?thesis by simp
qed


section \<open>The minimum-raising strategy\<close>

lemma bind_option_case:
  "Option.bind m f = (case m of None \<Rightarrow> None | Some x \<Rightarrow> f x)"
  by (cases m) simp_all

lemma choose_max_scoring_move_unfold:
  assumes wf: "\<forall>row\<in>set (updated_scores_of e board deck score). length row = length (get_score e score)"
  shows "choose_max_scoring_move e board deck score =
     (case np_argmax (map (total_gain (get_score e score)) (updated_scores_of e board deck score)) of
        None \<Rightarrow> None
      | Some k \<Rightarrow> Some (possible_moves_of e board deck ! k))"
  unfolding choose_max_scoring_move_def Let_def total_scores_diff_gain [OF wf] bind_option_case ..

lemma min_scores_aggregate:
  assumes "s \<noteq> []"
  shows "map sum_list (map (\<lambda>row. map (\<lambda>i. row ! i) (np_where_eq s (Min (set s)))) rows)
         = map (aggregate_over_min s) rows"
  by (simp add: aggregate_over_min_def sum_list_where_eq)

lemma choose_increase_min_move_unfold:
  assumes ne: "updated_scores_of e board deck score \<noteq> []"
    and s_ne: "get_score e score \<noteq> []"
    and wf: "\<forall>row\<in>set (updated_scores_of e board deck score). length row = length (get_score e score)"
  shows "choose_increase_min_move e board deck score =
     (if Max (set (map (aggregate_over_min (get_score e score)) (updated_scores_of e board deck score))) > 0
      then
        (if length (np_where_eq (map (aggregate_over_min (get_score e score)) (updated_scores_of e board deck score))
               (Max (set (map (aggregate_over_min (get_score e score)) (updated_scores_of e board deck score))))) = 1
         then Some (possible_moves_of e board deck !
                 (np_where_eq (map (aggregate_over_min (get_score e score)) (updated_scores_of e board deck score))
                   (Max (set (map (aggregate_over_min (get_score e score)) (updated_scores_of e board deck score)))) ! 0))
         else (case np_argmax (map (\<lambda>i. total_gain (get_score e score) (updated_scores_of e board deck score ! i))
                 (np_where_eq (map (aggregate_over_min (get_score e score)) (updated_scores_of e board deck score))
                   (Max (set (map (aggregate_over_min (get_score e score)) (updated_scores_of e board deck score)))))) of
                 None \<Rightarrow> None
               | Some mi \<Rightarrow> Some (map (\<lambda>i. possible_moves_of e board deck ! i)
                 (np_where_eq (map (aggregate_over_min (get_score e score)) (updated_scores_of e board deck score))
                   (Max (set (map (aggregate_over_min (get_score e score)) (updated_scores_of e board deck score))))) ! mi)))
      else choose_max_scoring_move e board deck score)"
proof -
  let ?us = "updated_scores_of e board deck score"
  let ?s = "get_score e score"
  let ?aggs = "map (aggregate_over_min ?s) ?us"
  have mn: "np_min ?s = Some (Min (set ?s))" using s_ne by (rule np_min_spec)
  note aggs = min_scores_aggregate [OF s_ne, of ?us]
  from ne have "?aggs \<noteq> []" by simp
  then have mx: "np_max ?aggs = Some (Max (set ?aggs))" by (rule np_max_spec)
  have sub: "total_scores_diff (map (\<lambda>i. ?us ! i) (np_where_eq ?aggs v)) ?s
      = map (\<lambda>i. total_gain ?s (?us ! i)) (np_where_eq ?aggs v)" for v
  proof -
    have "\<forall>row\<in>set (map (\<lambda>i. ?us ! i) (np_where_eq ?aggs v)). length row = length ?s"
      using wf by (auto simp: set_np_where_eq)
    from total_scores_diff_gain [OF this] show ?thesis by (simp add: comp_def)
  qed
  show ?thesis
    by (simp only: choose_increase_min_move_def Let_def mn aggs mx sub bind_option_case option.case)
qed


lemma np_argmax_constant:
  assumes "xs \<noteq> []" and "\<forall>x\<in>set xs. x = c"
  shows "np_argmax xs = Some 0"
proof -
  from np_argmax_spec [OF assms(1)] obtain r where r: "np_argmax xs = Some r" "r < length xs"
    "\<forall>j<r. xs ! j < xs ! r" by blast
  have "r = 0"
  proof (rule ccontr)
    assume "r \<noteq> 0"
    with r(3) have "xs ! 0 < xs ! r" by simp
    moreover from assms(1) have "xs ! 0 \<in> set xs" by (intro nth_mem) simp
    moreover from r(2) have "xs ! r \<in> set xs" by (intro nth_mem)
    ultimately have "xs ! 0 < xs ! r" "xs ! 0 = c" "xs ! r = c" using assms(2) by blast+
    then show False by simp
  qed
  with r(1) show ?thesis by simp
qed


text \<open>The first index of the maximum, reached through the index list of the maximum.\<close>

lemma np_where_eq_first_argmax:
  fixes xs :: "int list"
  assumes r: "np_argmax xs = Some r" and ne: "xs \<noteq> []"
  shows "np_where_eq xs (Max (set xs)) \<noteq> [] \<and> np_where_eq xs (Max (set xs)) ! 0 = r"
proof -
  from np_argmax_spec [OF ne] r have rl: "r < length xs" and top: "\<forall>j<length xs. xs ! j \<le> xs ! r"
    and first: "\<forall>j<r. xs ! j < xs ! r" by auto
  have "Max (set xs) = xs ! r"
  proof (rule Max_eqI)
    show "finite (set xs)" by simp
    show "y \<le> xs ! r" if "y \<in> set xs" for y using that top by (auto simp: in_set_conv_nth)
    show "xs ! r \<in> set xs" using rl by simp
  qed
  then have mx: "xs ! r = Max (set xs)" by simp
  from np_where_eq_first [OF rl mx] have f: "np_where_eq xs (Max (set xs)) \<noteq> []"
    "np_where_eq xs (Max (set xs)) ! 0 \<le> r"
    "xs ! (np_where_eq xs (Max (set xs)) ! 0) = Max (set xs)" by simp_all
  have "\<not> np_where_eq xs (Max (set xs)) ! 0 < r"
  proof
    assume "np_where_eq xs (Max (set xs)) ! 0 < r"
    with first have "xs ! (np_where_eq xs (Max (set xs)) ! 0) < xs ! r" by simp
    with f(3) mx show False by simp
  qed
  with f(1,2) show ?thesis by simp
qed

lemma capped_aggregate_is_gain:
  assumes len: "length row = 6" and cap: "row ! 0 = 18"
  shows "aggregate_over_min [18, 0, 0, 0, 0, 0] row = total_gain [18, 0, 0, 0, 0, 0] row"
proof -
  have enum: "i < 6 \<longleftrightarrow> i = 0 \<or> i = 1 \<or> i = 2 \<or> i = 3 \<or> i = 4 \<or> i = 5" for i :: nat
    by arith
  have mn: "Min (set [18, 0, 0, 0, 0, 0 :: int]) = 0" by simp
  have len6: "length [18, 0, 0, 0, 0, 0 :: int] = 6" by simp
  have set: "{i. i < length [18, 0, 0, 0, 0, 0 :: int] \<and>
                 [18, 0, 0, 0, 0, 0 :: int] ! i = Min (set [18, 0, 0, 0, 0, 0])} = {1, 2, 3, 4, 5}"
    unfolding mn len6 by (auto simp: enum)
  have lt: "{..<length [18, 0, 0, 0, 0, 0 :: int]} = {0, 1, 2, 3, 4, 5}"
    unfolding len6 by (auto simp: enum)
  show ?thesis
    unfolding aggregate_over_min_def total_gain_def set lt using cap by simp
qed


lemma aggregate_over_min_nonneg:
  assumes "\<forall>i<length s. 0 \<le> row ! i"
  shows "0 \<le> aggregate_over_min s row"
  unfolding aggregate_over_min_def using assms by (intro sum_nonneg) simp

text \<open>
  C4. For a non-empty candidate batch whose rows are score vectors (every post-move
  score is at least the pre-move score, which is non-negative, and at most the cap 18):
  the move \<open>choose_increase_min_move\<close> returns is a candidate that maximises the sum of
  the post-move scores over the colours at the pre-move minimum; among the candidates
  that attain this maximum it has maximal total score gain; when no candidate has an
  aggregate above 0 the result is that of \<open>choose_max_scoring_move\<close>; and for the mover
  score \<open>[18, 0, 0, 0, 0, 0]\<close> the result is that of \<open>choose_max_scoring_move\<close>.
\<close>

theorem choose_increase_min_move_spec:
  fixes e :: "('b, 'd, 's) engine" and board deck score
  defines "pm \<equiv> possible_moves_of e board deck"
    and "us \<equiv> updated_scores_of e board deck score"
    and "s \<equiv> get_score e score"
  assumes nonempty: "pm \<noteq> []" and rows: "length us = length pm" and s_ne: "s \<noteq> []"
    and wf: "\<forall>row\<in>set us. length row = length s \<and> (\<forall>i<length s. s ! i \<le> row ! i \<and> row ! i \<le> 18)"
    and nonneg: "\<forall>x\<in>set s. 0 \<le> x"
  shows "\<exists>k<length pm.
           choose_increase_min_move e board deck score = Some (pm ! k) \<and>
           (\<forall>j<length pm. aggregate_over_min s (us ! j) \<le> aggregate_over_min s (us ! k)) \<and>
           (\<forall>j<length pm. aggregate_over_min s (us ! j) = aggregate_over_min s (us ! k)
                \<longrightarrow> total_gain s (us ! j) \<le> total_gain s (us ! k)) \<and>
           ((\<forall>j<length pm. aggregate_over_min s (us ! j) \<le> 0)
                \<longrightarrow> choose_increase_min_move e board deck score
                    = choose_max_scoring_move e board deck score) \<and>
           (s = [18, 0, 0, 0, 0, 0]
                \<longrightarrow> choose_increase_min_move e board deck score
                    = choose_max_scoring_move e board deck score)"
proof -
  let ?aggs = "map (aggregate_over_min s) us"
  let ?gains = "map (total_gain s) us"
  let ?g = "\<lambda>i. total_gain s (us ! i)"
  let ?M = "Max (set ?aggs)"
  let ?idxs = "np_where_eq ?aggs ?M"
  let ?tb = "if length ?idxs = 1 then Some (pm ! (?idxs ! 0))
             else (case np_argmax (map ?g ?idxs) of None \<Rightarrow> None
                   | Some mi \<Rightarrow> Some (map (\<lambda>i. pm ! i) ?idxs ! mi))"
  from nonempty rows have us_ne: "us \<noteq> []" by auto
  have us_ne': "updated_scores_of e board deck score \<noteq> []" using us_ne by (simp add: us_def)
  have s_ne': "get_score e score \<noteq> []" using s_ne by (simp add: s_def)
  have wf': "\<forall>row\<in>set (updated_scores_of e board deck score). length row = length (get_score e score)"
    using wf by (simp add: us_def s_def)
  from us_ne have gains_ne: "?gains \<noteq> []" and aggs_ne: "?aggs \<noteq> []" by simp_all
  from np_argmax_spec [OF gains_ne] obtain r where r: "np_argmax ?gains = Some r" "r < length ?gains"
    "\<forall>j<length ?gains. ?gains ! j \<le> ?gains ! r" by blast
  from r(2) rows have rlt: "r < length pm" by simp
  have mx: "choose_max_scoring_move e board deck score = Some (pm ! r)"
    unfolding choose_max_scoring_move_unfold [OF wf'] using r(1) by (simp add: us_def s_def pm_def)
  have im: "choose_increase_min_move e board deck score
      = (if ?M > 0 then ?tb else choose_max_scoring_move e board deck score)"
    unfolding choose_increase_min_move_unfold [OF us_ne' s_ne' wf'] us_def s_def pm_def ..
  have gain_r: "\<forall>j<length pm. total_gain s (us ! j) \<le> total_gain s (us ! r)"
    using r(2,3) rows by simp
  have agg_le: "aggregate_over_min s (us ! j) \<le> ?M" if "j < length pm" for j
    using that rows by (intro Max_ge) simp_all
  have agg_nonneg: "0 \<le> aggregate_over_min s (us ! j)" if "j < length pm" for j
  proof (rule aggregate_over_min_nonneg, intro allI impI)
    fix i assume i: "i < length s"
    from that rows have "us ! j \<in> set us" by simp
    with wf i have "s ! i \<le> us ! j ! i" by blast
    moreover from nonneg i have "0 \<le> s ! i" by simp
    ultimately show "0 \<le> us ! j ! i" by simp
  qed
  show ?thesis
  proof (cases "?M > 0")
    case True
    from Max_attained [OF aggs_ne] obtain k0 where k0: "k0 < length ?aggs" "?aggs ! k0 = ?M" by blast
    from tie_break_spec [OF k0, of ?g pm] obtain k where k: "k < length ?aggs" "?aggs ! k = ?M"
      "\<forall>j<length ?aggs. ?aggs ! j = ?M \<longrightarrow> ?g j \<le> ?g k" "?tb = Some (pm ! k)" by blast
    from k(1) rows have klt: "k < length pm" by simp
    from k(1,2) have kM: "aggregate_over_min s (us ! k) = ?M" by simp
    have res: "choose_increase_min_move e board deck score = Some (pm ! k)"
      using im True k(4) by simp
    have a: "\<forall>j<length pm. aggregate_over_min s (us ! j) \<le> aggregate_over_min s (us ! k)"
      using agg_le kM by simp
    have b: "\<forall>j<length pm. aggregate_over_min s (us ! j) = aggregate_over_min s (us ! k)
                \<longrightarrow> total_gain s (us ! j) \<le> total_gain s (us ! k)"
      using k(3) kM rows by simp
    have c: "(\<forall>j<length pm. aggregate_over_min s (us ! j) \<le> 0)
                \<longrightarrow> choose_increase_min_move e board deck score
                    = choose_max_scoring_move e board deck score"
    proof
      assume "\<forall>j<length pm. aggregate_over_min s (us ! j) \<le> 0"
      with klt have "aggregate_over_min s (us ! k) \<le> 0" by simp
      with kM True show "choose_increase_min_move e board deck score
          = choose_max_scoring_move e board deck score" by simp
    qed
    have d: "s = [18, 0, 0, 0, 0, 0]
                \<longrightarrow> choose_increase_min_move e board deck score
                    = choose_max_scoring_move e board deck score"
    proof
      assume s18: "s = [18, 0, 0, 0, 0, 0]"
      have same: "aggregate_over_min s row = total_gain s row" if "row \<in> set us" for row
      proof -
        have z: "0 < length s" using s18 by simp
        from wf that have l: "length row = length s"
          and "\<forall>i<length s. s ! i \<le> row ! i \<and> row ! i \<le> 18" by blast+
        with z have "s ! 0 \<le> row ! 0" "row ! 0 \<le> 18" by blast+
        with l have "length row = 6" "row ! 0 = 18" using s18 by simp_all
        then show ?thesis unfolding s18 by (rule capped_aggregate_is_gain)
      qed
      then have eq: "?aggs = ?gains" by simp
      from np_where_eq_first_argmax [OF r(1) [folded eq] aggs_ne]
      have first: "?idxs \<noteq> []" "?idxs ! 0 = r" by simp_all
      have "?tb = Some (pm ! r)"
      proof (cases "length ?idxs = 1")
        case True
        with first show ?thesis by simp
      next
        case False
        have const: "\<forall>x\<in>set (map ?g ?idxs). x = ?M"
        proof
          fix x assume "x \<in> set (map ?g ?idxs)"
          then obtain i where i: "i \<in> set ?idxs" "x = total_gain s (us ! i)" by auto
          from i(1) have il: "i < length us" and "?aggs ! i = ?M"
            unfolding set_np_where_eq by simp_all
          then have iM: "aggregate_over_min s (us ! i) = ?M" by simp
          from il have "us ! i \<in> set us" by simp
          from same [OF this] iM i(2) show "x = ?M" by simp
        qed
        from first(1) have "map ?g ?idxs \<noteq> []" by simp
        from np_argmax_constant [OF this const] have "np_argmax (map ?g ?idxs) = Some 0" .
        with False first show ?thesis by simp
      qed
      with im True mx show "choose_increase_min_move e board deck score
          = choose_max_scoring_move e board deck score" by simp
    qed
    from klt res a b c d show ?thesis by (intro exI [of _ k] conjI)
  next
    case False
    have res: "choose_increase_min_move e board deck score = Some (pm ! r)"
      using im False mx by simp
    have a: "\<forall>j<length pm. aggregate_over_min s (us ! j) \<le> aggregate_over_min s (us ! r)"
    proof (intro allI impI)
      fix j assume j: "j < length pm"
      from agg_le [OF j] False have "aggregate_over_min s (us ! j) \<le> 0" by simp
      with agg_nonneg [OF rlt] show "aggregate_over_min s (us ! j) \<le> aggregate_over_min s (us ! r)"
        by simp
    qed
    have b: "\<forall>j<length pm. aggregate_over_min s (us ! j) = aggregate_over_min s (us ! r)
                \<longrightarrow> total_gain s (us ! j) \<le> total_gain s (us ! r)"
      using gain_r by simp
    have cd: "choose_increase_min_move e board deck score = choose_max_scoring_move e board deck score"
      using res mx by simp
    from rlt res a b cd show ?thesis by (intro exI [of _ r] conjI) simp_all
  qed
qed


lemma toy_increase_min_scores:
  "updated_scores_of toy_engine ([toy_capped_only, toy_raise_min], 0, 40) [] [18, 0, 0, 0, 0, 0]
     = [[18, 0, 0, 0, 0, 0], [18, 2, 0, 0, 0, 0]]"
  by (simp add: toy_updated_scores toy_add_scores_def toy_capped_only_def toy_raise_min_def)

theorem choose_increase_min_move_spec_witness:
  "possible_moves_of toy_engine ([toy_capped_only, toy_raise_min], 0, 40) [] \<noteq> [] \<and>
   get_score toy_engine [18, 0, 0, 0, 0, 0] = [18, 0, 0, 0, 0, 0] \<and>
   updated_scores_of toy_engine ([toy_capped_only, toy_raise_min], 0, 40) [] [18, 0, 0, 0, 0, 0]
     = [[18, 0, 0, 0, 0, 0], [18, 2, 0, 0, 0, 0]] \<and>
   choose_increase_min_move toy_engine ([toy_capped_only, toy_raise_min], 0, 40) [] [18, 0, 0, 0, 0, 0]
     = choose_max_scoring_move toy_engine ([toy_capped_only, toy_raise_min], 0, 40) [] [18, 0, 0, 0, 0, 0] \<and>
   (\<exists>k<length (possible_moves_of toy_engine ([toy_capped_only, toy_raise_min], 0, 40) []).
      choose_increase_min_move toy_engine ([toy_capped_only, toy_raise_min], 0, 40) [] [18, 0, 0, 0, 0, 0]
        = Some (possible_moves_of toy_engine ([toy_capped_only, toy_raise_min], 0, 40) [] ! k))"
proof -
  let ?b = "([toy_capped_only, toy_raise_min], 0::nat, 40::nat)"
  let ?s = "[18, 0, 0, 0, 0, 0] :: int list"
  let ?pm = "possible_moves_of toy_engine ?b []"
  let ?us = "updated_scores_of toy_engine ?b [] ?s"
  have pm: "?pm = [toy_capped_only, toy_raise_min]" by (rule toy_possible_moves)
  note us = toy_increase_min_scores
  have gs: "get_score toy_engine ?s = ?s" by (rule toy_get_score)
  have h1: "?pm \<noteq> []" by (simp add: pm)
  have h2: "length ?us = length ?pm" by (simp add: pm us)
  have h3: "get_score toy_engine ?s \<noteq> []" by (simp add: gs)
  have h4: "\<forall>row\<in>set ?us. length row = length (get_score toy_engine ?s) \<and>
      (\<forall>i<length (get_score toy_engine ?s). get_score toy_engine ?s ! i \<le> row ! i \<and> row ! i \<le> 18)"
    unfolding us gs by (auto simp: nth_Cons split: nat.splits)
  have h5: "\<forall>x\<in>set (get_score toy_engine ?s). 0 \<le> x" by (simp add: gs)
  from choose_increase_min_move_spec [OF h1 h2 h3 h4 h5]
  obtain k where k: "k < length ?pm" "choose_increase_min_move toy_engine ?b [] ?s = Some (?pm ! k)"
    and d: "get_score toy_engine ?s = [18, 0, 0, 0, 0, 0]
        \<longrightarrow> choose_increase_min_move toy_engine ?b [] ?s = choose_max_scoring_move toy_engine ?b [] ?s"
    by blast
  from d gs have "choose_increase_min_move toy_engine ?b [] ?s
      = choose_max_scoring_move toy_engine ?b [] ?s" by simp
  with h1 gs us k show ?thesis by blast
qed


end
